theory Spec2Isabelle
  imports Complex_Main "HOL-Library.Monad_Syntax"
begin

section \<open>JavaScript values used by the scheduling code\<close>

text \<open>
  The models (\<^verbatim>\<open>Doctor.js\<close>, \<^verbatim>\<open>Appointment.js\<close>) turn \<^verbatim>\<open>"HH:MM"\<close> strings into minutes
  with \<^verbatim>\<open>time.split(':').map(Number)\<close> and \<^verbatim>\<open>hours * 60 + minutes\<close>. A JavaScript number
  is modelled as \<open>int option\<close>: \<open>None\<close> is \<^verbatim>\<open>NaN\<close>, every comparison with it is false
  and every sum with it is \<^verbatim>\<open>NaN\<close> again.
\<close>

type_synonym jsnum = "int option"

definition js_add :: "jsnum \<Rightarrow> jsnum \<Rightarrow> jsnum" where
  "js_add a b = (case a of None \<Rightarrow> None
                 | Some x \<Rightarrow> (case b of None \<Rightarrow> None | Some y \<Rightarrow> Some (x + y)))"

definition js_lt :: "jsnum \<Rightarrow> jsnum \<Rightarrow> bool" where
  "js_lt a b = (case a of None \<Rightarrow> False
                | Some x \<Rightarrow> (case b of None \<Rightarrow> False | Some y \<Rightarrow> x < y))"

definition js_le :: "jsnum \<Rightarrow> jsnum \<Rightarrow> bool" where
  "js_le a b = (case a of None \<Rightarrow> False
                | Some x \<Rightarrow> (case b of None \<Rightarrow> False | Some y \<Rightarrow> x \<le> y))"

definition is_digit :: "char \<Rightarrow> bool" where
  "is_digit c = (48 \<le> (of_char c :: nat) \<and> (of_char c :: nat) \<le> 57)"

definition digit_val :: "char \<Rightarrow> int" where
  "digit_val c = int (of_char c) - 48"

definition digit_char :: "nat \<Rightarrow> char" where
  "digit_char n = char_of (48 + n)"

definition dec_value :: "string \<Rightarrow> int" where
  "dec_value s = foldl (\<lambda>acc c. 10 * acc + digit_val c) 0 s"

text \<open>
  \<^verbatim>\<open>String.prototype.split\<close> with a one-character separator: the empty string gives one
  empty piece, and \<open>n\<close> separators give \<open>n + 1\<close> pieces.
\<close>

fun split_on :: "char \<Rightarrow> string \<Rightarrow> string list" where
  "split_on sep [] = [[]]"
| "split_on sep (x # xs) =
     (if x = sep then [] # split_on sep xs
      else (case split_on sep xs of [] \<Rightarrow> [[x]] | p # ps \<Rightarrow> (x # p) # ps))"

text \<open>
  \<^verbatim>\<open>String.prototype.trim\<close> on the white space of ASCII (tab, line feed, vertical tab,
  form feed, carriage return, space).
\<close>

definition is_space :: "char \<Rightarrow> bool" where
  "is_space c = ((of_char c :: nat) \<in> set [9, 10, 11, 12, 13, 32])"

definition trim :: "string \<Rightarrow> string" where
  "trim s = rev (dropWhile is_space (rev (dropWhile is_space s)))"

text \<open>
  \<^verbatim>\<open>Number(s)\<close> on a string. White space around the literal is dropped; what is left is
  read as 0 when empty, as a decimal integer with an optional sign, or as an unsigned
  integer in base 16, 8 or 2 after the prefix \<^verbatim>\<open>0x\<close>, \<^verbatim>\<open>0o\<close> or \<^verbatim>\<open>0b\<close> (in either
  case); anything else is \<^verbatim>\<open>NaN\<close>. JavaScript also reads a literal with a fraction point
  or an exponent and the word \<^verbatim>\<open>Infinity\<close>: those are not integers in general and are
  outside this model, which takes them to \<^verbatim>\<open>NaN\<close>.
\<close>

definition unsigned_integer :: "string \<Rightarrow> jsnum" where
  "unsigned_integer ds = (if ds \<noteq> [] \<and> list_all is_digit ds then Some (dec_value ds) else None)"

definition radix_digit :: "char \<Rightarrow> nat option" where
  "radix_digit c =
     (let n = (of_char c :: nat) in
      if 48 \<le> n \<and> n \<le> 57 then Some (n - 48)
      else if 65 \<le> n \<and> n \<le> 70 then Some (n - 55)
      else if 97 \<le> n \<and> n \<le> 102 then Some (n - 87)
      else None)"

definition radix_literal :: "nat \<Rightarrow> string \<Rightarrow> jsnum" where
  "radix_literal b ds =
     (if ds \<noteq> [] \<and> list_all (\<lambda>c. case radix_digit c of None \<Rightarrow> False | Some v \<Rightarrow> v < b) ds
      then Some (foldl (\<lambda>acc c. int b * acc
                          + int (case radix_digit c of None \<Rightarrow> 0 | Some v \<Rightarrow> v)) 0 ds)
      else None)"

definition js_Number :: "string \<Rightarrow> jsnum" where
  "js_Number s =
     (case trim s of
        [] \<Rightarrow> Some 0
      | c # r \<Rightarrow>
          if c = CHR ''+'' then unsigned_integer r
          else if c = CHR ''-'' then map_option uminus (unsigned_integer r)
          else if c = CHR ''0'' \<and> r \<noteq> [] \<and> hd r \<in> set ''xX'' then radix_literal 16 (tl r)
          else if c = CHR ''0'' \<and> r \<noteq> [] \<and> hd r \<in> set ''oO'' then radix_literal 8 (tl r)
          else if c = CHR ''0'' \<and> r \<noteq> [] \<and> hd r \<in> set ''bB'' then radix_literal 2 (tl r)
          else unsigned_integer (c # r))"

text \<open>
  \<^verbatim>\<open>const [hours, minutes] = time.split(':').map(Number); hours * 60 + minutes\<close>.
  A missing second piece destructures to \<^verbatim>\<open>undefined\<close>, and the sum is \<^verbatim>\<open>NaN\<close>; pieces
  after the second are ignored.
\<close>

definition hm_minutes :: "string \<Rightarrow> jsnum" where
  "hm_minutes t = (case map js_Number (split_on CHR '':'' t) of
                     Some h # Some m # _ \<Rightarrow> Some (h * 60 + m)
                   | _ \<Rightarrow> None)"

text \<open>
  The schema's pattern for the four availability times,
  \<^verbatim>\<open>/^([0-1]?[0-9]|2[0-3]):[0-5][0-9]$/\<close>.
\<close>

fun is_time_string :: "string \<Rightarrow> bool" where
  "is_time_string [h, c, m1, m2] =
     (is_digit h \<and> c = CHR '':'' \<and> m1 \<in> set ''012345'' \<and> is_digit m2)"
| "is_time_string [h1, h2, c, m1, m2] =
     (((h1 \<in> set ''01'' \<and> is_digit h2) \<or> (h1 = CHR ''2'' \<and> h2 \<in> set ''0123''))
      \<and> c = CHR '':'' \<and> m1 \<in> set ''012345'' \<and> is_digit m2)"
| "is_time_string _ = False"

text \<open>
  In words: a time string \<^verbatim>\<open>H:MM\<close> or \<^verbatim>\<open>HH:MM\<close> and the minutes since midnight it
  stands for, read off its digits.
\<close>

fun clock_minutes :: "string \<Rightarrow> int option" where
  "clock_minutes [h, c, m1, m2] =
     (if is_digit h \<and> c = CHR '':'' \<and> is_digit m1 \<and> is_digit m2
      then Some (digit_val h * 60 + (digit_val m1 * 10 + digit_val m2)) else None)"
| "clock_minutes [h1, h2, c, m1, m2] =
     (if is_digit h1 \<and> is_digit h2 \<and> c = CHR '':'' \<and> is_digit m1 \<and> is_digit m2
      then Some ((digit_val h1 * 10 + digit_val h2) * 60 + (digit_val m1 * 10 + digit_val m2))
      else None)"
| "clock_minutes _ = None"

text \<open>\<^verbatim>\<open>Number.prototype.toString\<close> on an integer, and \<^verbatim>\<open>padStart(2, '0')\<close>.\<close>

function nat_toString :: "nat \<Rightarrow> string" where
  "nat_toString n = (if n < 10 then [digit_char n]
                     else nat_toString (n div 10) @ [digit_char (n mod 10)])"
  by pat_completeness auto
termination
  by (relation "measure id") auto

declare nat_toString.simps [simp del]

definition int_toString :: "int \<Rightarrow> string" where
  "int_toString i = (if i < 0 then CHR ''-'' # nat_toString (nat (- i)) else nat_toString (nat i))"

text \<open>The remainder operator \<^verbatim>\<open>%\<close> takes the sign of the dividend.\<close>

definition js_rem :: "int \<Rightarrow> int \<Rightarrow> int" where
  "js_rem a b = (if a < 0 then - ((- a) mod \<bar>b\<bar>) else a mod \<bar>b\<bar>)"

definition padStart2 :: "string \<Rightarrow> string" where
  "padStart2 s = replicate (2 - length s) CHR ''0'' @ s"

text \<open>
  \<^verbatim>\<open>hour = Math.floor(currentTime / 60); minute = currentTime % 60;\<close>
  \<^verbatim>\<open>`${hour.toString().padStart(2, '0')}:${minute.toString().padStart(2, '0')}`\<close>
\<close>

definition timeString :: "jsnum \<Rightarrow> string" where
  "timeString currentTime =
     (case currentTime of
        None \<Rightarrow> ''NaN:NaN''
      | Some t \<Rightarrow> padStart2 (int_toString (t div 60)) @ '':''
                  @ padStart2 (int_toString (js_rem t 60)))"

text \<open>A slot as the callers expect it: two digits, a colon, two digits.\<close>

fun is_HHMM :: "string \<Rightarrow> bool" where
  "is_HHMM [a, b, c, d, e] =
     (is_digit a \<and> is_digit b \<and> c = CHR '':'' \<and> is_digit d \<and> is_digit e)"
| "is_HHMM _ = False"

text \<open>
  A \<^verbatim>\<open>Date\<close> is its time value in milliseconds since the epoch; \<open>None\<close> is an invalid date.
  \<^verbatim>\<open>new Date(date).toLocaleString('en', { weekday: 'long' }).toLowerCase()\<close> names the
  weekday of the local calendar day; \<open>tzOffset\<close> is the local zone's offset from UTC in
  minutes at that instant. Day 0 of the epoch was a Thursday.
\<close>

type_synonym jsdate = "int option"

definition weekday_names :: "string list" where
  "weekday_names = [''thursday'', ''friday'', ''saturday'', ''sunday'',
                    ''monday'', ''tuesday'', ''wednesday'']"

definition dayName :: "int \<Rightarrow> jsdate \<Rightarrow> string" where
  "dayName tzOffset d =
     (case d of
        None \<Rightarrow> ''invalid date''
      | Some ms \<Rightarrow> weekday_names ! nat (((ms + tzOffset * 60000) div 86400000) mod 7))"

section \<open>The Doctor model\<close>

record availability_rec =
  workingDays :: "string list"
  startTime :: string
  endTime :: string
  breakStart :: string
  breakEnd :: string
  slotDuration :: int

text \<open>The five counters of \<^verbatim>\<open>rating.breakdown\<close>, keyed 5 down to 1 in the schema.\<close>

record breakdown_rec =
  count5 :: int
  count4 :: int
  count3 :: int
  count2 :: int
  count1 :: int

text \<open>
  \<^verbatim>\<open>rating.average\<close> is a JavaScript double; it is idealised as an exact rational, with
  \<open>None\<close> for the non-finite results of a division by zero.
\<close>

record rating_rec =
  average :: "rat option"
  totalReviews :: int
  breakdown :: breakdown_rec

record doctor =
  availability :: availability_rec
  isAvailable :: bool
  status :: string
  rating :: rating_rec

text \<open>What the schema validates on \<^verbatim>\<open>availability\<close>: the \<^verbatim>\<open>match\<close> patterns and the \<^verbatim>\<open>enum\<close>.\<close>

definition times_wellformed :: "availability_rec \<Rightarrow> bool" where
  "times_wellformed a =
     (is_time_string (startTime a) \<and> is_time_string (endTime a)
      \<and> is_time_string (breakStart a) \<and> is_time_string (breakEnd a))"

definition slotDuration_enum :: "int list" where
  "slotDuration_enum = [15, 20, 30, 45, 60]"

subsection \<open>generateTimeSlots\<close>

text \<open>
  The body of the \<^verbatim>\<open>while\<close> loop, on the pair of \<^verbatim>\<open>currentTime\<close> and \<^verbatim>\<open>slots\<close>: inside the
  break it jumps to \<^verbatim>\<open>breakEnd\<close> and continues, otherwise it pushes the formatted time
  and advances by \<^verbatim>\<open>slotDuration\<close>.
\<close>

definition slot_body :: "int \<Rightarrow> jsnum \<Rightarrow> jsnum \<Rightarrow> jsnum \<times> string list \<Rightarrow> jsnum \<times> string list" where
  "slot_body slotDur bS bE st =
     (case st of (currentTime, slots) \<Rightarrow>
        if js_le bS currentTime \<and> js_lt currentTime bE
        then (bE, slots)
        else (js_add currentTime (Some slotDur), slots @ [timeString currentTime]))"

definition slot_guard :: "int \<Rightarrow> jsnum \<Rightarrow> jsnum \<times> string list \<Rightarrow> bool" where
  "slot_guard slotDur endT st = js_le (js_add (fst st) (Some slotDur)) endT"

text \<open>
  \<^verbatim>\<open>while (currentTime + slotDuration <= endTime) { ... }\<close>; \<open>None\<close> is a loop that never
  leaves.
\<close>

partial_function (option) slot_loop ::
  "int \<Rightarrow> jsnum \<Rightarrow> jsnum \<Rightarrow> jsnum \<Rightarrow> jsnum \<times> string list \<Rightarrow> string list option" where
  "slot_loop slotDur endT bS bE st =
     (if slot_guard slotDur endT st
      then slot_loop slotDur endT bS bE (slot_body slotDur bS bE st)
      else Some (snd st))"

declare slot_loop.simps [code]

definition generateTimeSlots :: "int \<Rightarrow> doctor \<Rightarrow> jsdate \<Rightarrow> string list option" where
  "generateTimeSlots tzOffset this date =
     (let a = availability this in
      if dayName tzOffset date \<notin> set (workingDays a) then Some []
      else slot_loop (slotDuration a) (hm_minutes (endTime a))
             (hm_minutes (breakStart a)) (hm_minutes (breakEnd a))
             (hm_minutes (startTime a), []))"

subsection \<open>checkAvailability\<close>

record availability_result =
  available :: bool
  reason :: "string option"

text \<open>
  The first test, \<^verbatim>\<open>!this.isAvailable || this.status !== 'active'\<close>, is written as the two
  tests the short-circuit \<^verbatim>\<open>||\<close> makes, one after the other.
\<close>

definition checkAvailability :: "int \<Rightarrow> doctor \<Rightarrow> jsdate \<Rightarrow> string \<Rightarrow> availability_result" where
  "checkAvailability tzOffset this date time =
     (if \<not> isAvailable this
      then \<lparr>available = False, reason = Some ''Doctor is not available''\<rparr>
      else if status this \<noteq> ''active''
      then \<lparr>available = False, reason = Some ''Doctor is not available''\<rparr>
      else if dayName tzOffset date \<notin> set (workingDays (availability this))
      then \<lparr>available = False, reason = Some ''Doctor does not work on this day''\<rparr>
      else
        let appointmentTime = hm_minutes time;
            workStart = hm_minutes (startTime (availability this));
            workEnd = hm_minutes (endTime (availability this));
            breakS = hm_minutes (breakStart (availability this));
            breakE = hm_minutes (breakEnd (availability this))
        in if js_lt appointmentTime workStart \<or> js_le workEnd appointmentTime
           then \<lparr>available = False, reason = Some ''Outside working hours''\<rparr>
           else if js_le breakS appointmentTime \<and> js_lt appointmentTime breakE
           then \<lparr>available = False, reason = Some ''During break time''\<rparr>
           else \<lparr>available = True, reason = None\<rparr>)"

subsection \<open>updateRating\<close>

text \<open>
  \<^verbatim>\<open>this.rating.breakdown[newRating]\<close> for the keys 1 to 5 of the schema, and
  \<^verbatim>\<open>Object.entries(this.rating.breakdown)\<close>, which lists integer keys in ascending order.
\<close>

definition count_of :: "breakdown_rec \<Rightarrow> int \<Rightarrow> int" where
  "count_of b k = (if k = 1 then count1 b else if k = 2 then count2 b
                   else if k = 3 then count3 b else if k = 4 then count4 b
                   else if k = 5 then count5 b else 0)"

definition increment :: "breakdown_rec \<Rightarrow> int \<Rightarrow> breakdown_rec" where
  "increment b k = (if k = 1 then b\<lparr>count1 := count1 b + 1\<rparr>
                    else if k = 2 then b\<lparr>count2 := count2 b + 1\<rparr>
                    else if k = 3 then b\<lparr>count3 := count3 b + 1\<rparr>
                    else if k = 4 then b\<lparr>count4 := count4 b + 1\<rparr>
                    else if k = 5 then b\<lparr>count5 := count5 b + 1\<rparr>
                    else b)"

definition Object_entries :: "breakdown_rec \<Rightarrow> (int \<times> int) list" where
  "Object_entries b = [(1, count1 b), (2, count2 b), (3, count3 b), (4, count4 b), (5, count5 b)]"

definition Object_values :: "breakdown_rec \<Rightarrow> int list" where
  "Object_values b = map snd (Object_entries b)"

definition js_div :: "int \<Rightarrow> int \<Rightarrow> rat option" where
  "js_div a b = (if b = 0 then None else Some (of_int a / of_int b))"

text \<open>\<^verbatim>\<open>Math.round\<close> rounds to the nearest integer, a tie towards plus infinity.\<close>

definition Math_round :: "rat \<Rightarrow> int" where
  "Math_round x = \<lfloor>x + 1 / 2\<rfloor>"

text \<open>The schema's setter on \<^verbatim>\<open>rating.average\<close>: \<^verbatim>\<open>value => Math.round(value * 10) / 10\<close>.\<close>

definition average_set :: "rat option \<Rightarrow> rat option" where
  "average_set v = map_option (\<lambda>x. of_int (Math_round (x * 10)) / 10) v"

text \<open>
  The result pairs what the call throws (\<open>Some message\<close>, or \<open>None\<close> when it runs to
  \<^verbatim>\<open>this.save()\<close>) with the document afterwards.
\<close>

definition updateRating :: "int \<Rightarrow> doctor \<Rightarrow> string option \<times> doctor" where
  "updateRating newRating this =
     (if newRating < 1 \<or> newRating > 5
      then (Some ''Rating must be between 1 and 5'', this)
      else
        let b = increment (breakdown (rating this)) newRating;
            totalRatings = foldl (\<lambda>sum count. sum + count) 0 (Object_values b);
            totalScore = foldl (\<lambda>sum (rating, count). sum + rating * count) 0 (Object_entries b)
        in (None, this\<lparr>rating := \<lparr>average = average_set (js_div totalScore totalRatings),
                                   totalReviews = totalRatings,
                                   breakdown = b\<rparr>\<rparr>))"

section \<open>The Appointment model\<close>

text \<open>
  An \<^verbatim>\<open>ObjectId\<close> is a natural number. The record keeps the paths of the schema that the
  conflict check and the validation of a new document read: \<open>apt_id\<close> is \<^verbatim>\<open>_id\<close>,
  \<open>appointmentDate\<close> is the date's time value in milliseconds, and \<open>duration\<close> is \<open>None\<close>
  when the stored value is \<^verbatim>\<open>null\<close>.
\<close>

type_synonym oid = nat

record appointment =
  apt_id :: oid
  appointmentId :: string
  patient :: oid
  patientId :: string
  doctor :: oid
  doctorId :: string
  appointmentDate :: int
  appointmentTime :: string
  duration :: "int option"
  reason :: string
  status :: string

definition status_enum :: "string list" where
  "status_enum = [''scheduled'', ''confirmed'', ''checked-in'', ''in-progress'',
                  ''completed'', ''cancelled'', ''no-show'']"

text \<open>The statuses of the filter: \<^verbatim>\<open>{ $in: ['scheduled', 'confirmed', 'checked-in', 'in-progress'] }\<close>.\<close>

definition active_statuses :: "string list" where
  "active_statuses = [''scheduled'', ''confirmed'', ''checked-in'', ''in-progress'']"

text \<open>\<^verbatim>\<open>apt.duration || 30\<close>: a stored \<^verbatim>\<open>null\<close> or 0 counts as 30 minutes.\<close>

definition aptDuration :: "appointment \<Rightarrow> int" where
  "aptDuration apt = (case duration apt of None \<Rightarrow> 30 | Some d \<Rightarrow> if d = 0 then 30 else d)"


subsection \<open>createAppointment\<close>

text \<open>The request body of \<^verbatim>\<open>POST /api/appointments\<close>; \<open>None\<close> is a path the body leaves out.\<close>

record appointment_body =
  body_appointmentId :: "string option"
  body_patient :: "oid option"
  body_patientId :: "string option"
  body_doctor :: "oid option"
  body_doctorId :: "string option"
  body_appointmentDate :: "int option"
  body_appointmentTime :: "string option"
  body_duration :: "int option"
  body_reason :: "string option"
  body_status :: "string option"

text \<open>The schema's default: \<^verbatim>\<open>'APT' + Date.now().toString().slice(-6)\<close>.\<close>

definition default_appointmentId :: "int \<Rightarrow> string" where
  "default_appointmentId now =
     (let s = int_toString now in ''APT'' @ drop (length s - 6) s)"

text \<open>
  \<^verbatim>\<open>Appointment.create(req.body)\<close>: the required paths must be there (\<^verbatim>\<open>reason\<close> after its
  \<^verbatim>\<open>trim\<close>), \<^verbatim>\<open>duration\<close> defaults to 30 and must lie between 15 and 120, \<^verbatim>\<open>status\<close>
  defaults to \<^verbatim>\<open>'scheduled'\<close> and must be in the \<^verbatim>\<open>enum\<close>; the document gets a new
  \<^verbatim>\<open>ObjectId\<close>, different from every stored one, and is inserted unless its
  \<^verbatim>\<open>appointmentId\<close> breaks the unique index. \<open>None\<close> is a rejected promise.
\<close>

definition fresh_oid :: "appointment list \<Rightarrow> oid" where
  "fresh_oid store = Suc (fold max (map apt_id store) 0)"

definition Appointment_create ::
  "int \<Rightarrow> appointment_body \<Rightarrow> appointment list \<Rightarrow> appointment list option" where
  "Appointment_create now b store =
     do {
       p \<leftarrow> body_patient b;
       pid \<leftarrow> body_patientId b;
       d \<leftarrow> body_doctor b;
       did \<leftarrow> body_doctorId b;
       date \<leftarrow> body_appointmentDate b;
       time \<leftarrow> body_appointmentTime b;
       r \<leftarrow> map_option trim (body_reason b);
       let dur = (case body_duration b of None \<Rightarrow> 30 | Some x \<Rightarrow> x);
       let st = (case body_status b of None \<Rightarrow> ''scheduled'' | Some s \<Rightarrow> s);
       let aid = (case body_appointmentId b of None \<Rightarrow> default_appointmentId now | Some a \<Rightarrow> a);
       if pid = [] \<or> did = [] \<or> time = [] \<or> r = [] \<or> dur < 15 \<or> 120 < dur
          \<or> aid \<in> set (map appointmentId store) \<or> st \<notin> set status_enum
       then None
       else Some (store @ [\<lparr>apt_id = fresh_oid store, appointmentId = aid, patient = p,
                             patientId = pid, doctor = d, doctorId = did,
                             appointmentDate = date, appointmentTime = time,
                             duration = Some dur, reason = r, status = st\<rparr>])
     }"

text \<open>
  The controller of \<^verbatim>\<open>POST /api/appointments\<close>. \<open>role\<close> is \<^verbatim>\<open>req.user.role\<close> and
  \<open>patientOfUser\<close> the \<^verbatim>\<open>_id\<close> of the patient that \<^verbatim>\<open>Patient.findOne({ user: req.user.id })\<close>
  finds; when it finds none, \<^verbatim>\<open>patient._id\<close> throws and the handler answers 400. The
  result is the HTTP status with the collection afterwards.
\<close>

definition createAppointment ::
  "int \<Rightarrow> string \<Rightarrow> oid option \<Rightarrow> appointment_body \<Rightarrow> appointment list \<Rightarrow> nat \<times> appointment list" where
  "createAppointment now role patientOfUser body store =
     (if role = ''patient'' \<and> patientOfUser = None then (400, store)
      else
        let body' = (if role = ''patient'' then body\<lparr>body_patient := patientOfUser\<rparr> else body)
        in case Appointment_create now body' store of
             None \<Rightarrow> (400, store)
           | Some store' \<Rightarrow> (201, store'))"

text \<open>
  The property the conflict check is there for: no two different stored appointments of
  one doctor on one date, both with an active status, overlap in time.
\<close>

definition overlap :: "appointment \<Rightarrow> appointment \<Rightarrow> bool" where
  "overlap a b =
     (js_lt (hm_minutes (appointmentTime a))
            (js_add (hm_minutes (appointmentTime b)) (Some (aptDuration b)))
      \<and> js_lt (hm_minutes (appointmentTime b))
              (js_add (hm_minutes (appointmentTime a)) (Some (aptDuration a))))"

definition double_booked :: "appointment \<Rightarrow> appointment \<Rightarrow> bool" where
  "double_booked a b =
     (apt_id a \<noteq> apt_id b \<and> doctorId a = doctorId b \<and> appointmentDate a = appointmentDate b
      \<and> status a \<in> set active_statuses \<and> status b \<in> set active_statuses \<and> overlap a b)"

definition no_double_booking :: "appointment list \<Rightarrow> bool" where
  "no_double_booking store = (\<not> list_ex (\<lambda>a. list_ex (double_booked a) store) store)"

section \<open>The Patient model and the routes that create patients\<close>

text \<open>
  A date as the calendar fields the \<^verbatim>\<open>age\<close> virtual reads from it in local time:
  \<^verbatim>\<open>getFullYear()\<close>, \<^verbatim>\<open>getMonth()\<close> (0 to 11) and \<^verbatim>\<open>getDate()\<close>.
\<close>

record calendar_date =
  getFullYear :: int
  getMonth :: int
  getDate :: int

record patient =
  pat_oid :: oid
  patientId :: string
  firstName :: string
  lastName :: string
  dateOfBirth :: "calendar_date option"
  gender :: string
  idNumber :: string
  email :: string

text \<open>
  The virtual \<^verbatim>\<open>age\<close>; \<open>today\<close> is \<^verbatim>\<open>new Date()\<close> and the result \<open>None\<close> is \<^verbatim>\<open>null\<close>.
\<close>

definition age :: "calendar_date \<Rightarrow> patient \<Rightarrow> int option" where
  "age today this =
     (case dateOfBirth this of
        None \<Rightarrow> None
      | Some birthDate \<Rightarrow>
          let age = getFullYear today - getFullYear birthDate;
              monthDiff = getMonth today - getMonth birthDate
          in if monthDiff < 0 \<or> (monthDiff = 0 \<and> getDate today < getDate birthDate)
             then Some (age - 1) else Some age)"

text \<open>
  In words: the birth month and day have not yet occurred in the current year; and the
  calendar order of two dates.
\<close>

definition birthday_not_yet :: "calendar_date \<Rightarrow> calendar_date \<Rightarrow> bool" where
  "birthday_not_yet today birthDate =
     (getMonth today < getMonth birthDate
      \<or> (getMonth today = getMonth birthDate \<and> getDate today < getDate birthDate))"

definition on_or_before :: "calendar_date \<Rightarrow> calendar_date \<Rightarrow> bool" where
  "on_or_before a b =
     (getFullYear a < getFullYear b
      \<or> (getFullYear a = getFullYear b
          \<and> (getMonth a < getMonth b \<or> (getMonth a = getMonth b \<and> getDate a \<le> getDate b))))"

text \<open>\<^verbatim>\<open>String.prototype.toLowerCase\<close> on the letters of ASCII.\<close>

definition toLowerCase :: "string \<Rightarrow> string" where
  "toLowerCase s =
     map (\<lambda>c. if 65 \<le> (of_char c :: nat) \<and> (of_char c :: nat) \<le> 90
               then char_of (of_char c + 32 :: nat) else c) s"

text \<open>
  The body of a create request. A path is \<open>None\<close> when the body leaves it out; \<^verbatim>\<open>!x\<close> is
  true of a missing path and of the empty string.
\<close>

record patient_body =
  req_firstName :: "string option"
  req_lastName :: "string option"
  req_dateOfBirth :: "string option"
  req_gender :: "string option"
  req_idNumber :: "string option"
  req_email :: "string option"
  req_phone :: "string option"
  req_address :: "string option"
  req_city :: "string option"

definition falsy :: "string option \<Rightarrow> bool" where
  "falsy v = (case v of None \<Rightarrow> True | Some s \<Rightarrow> s = [])"

definition gender_enum :: "string list" where
  "gender_enum = [''male'', ''female'', ''other'', ''prefer-not-to-say'']"

text \<open>
  \<^verbatim>\<open>patient.save()\<close>: validation of the required paths and of the \<^verbatim>\<open>enum\<close> of \<^verbatim>\<open>gender\<close>,
  then the insert, which the unique indexes on \<^verbatim>\<open>patientId\<close>, \<^verbatim>\<open>idNumber\<close> and \<^verbatim>\<open>email\<close>
  refuse with error code 11000. \<open>otherPathsValid\<close> is the outcome of validating the
  paths this record leaves out (phone, address, emergency contact, payment method,
  consents).
\<close>

datatype save_result = Saved "patient list" | ValidationError | DuplicateKey

definition validate_patient :: "bool \<Rightarrow> patient \<Rightarrow> bool" where
  "validate_patient otherPathsValid doc =
     (otherPathsValid \<and> patientId doc \<noteq> [] \<and> firstName doc \<noteq> [] \<and> lastName doc \<noteq> []
      \<and> dateOfBirth doc \<noteq> None \<and> gender doc \<in> set gender_enum
      \<and> idNumber doc \<noteq> [] \<and> email doc \<noteq> [])"

definition unique_index_conflict :: "patient \<Rightarrow> patient list \<Rightarrow> bool" where
  "unique_index_conflict doc store =
     list_ex (\<lambda>p. patientId p = patientId doc \<or> idNumber p = idNumber doc
                   \<or> email p = email doc) store"

definition Patient_save :: "bool \<Rightarrow> patient \<Rightarrow> patient list \<Rightarrow> save_result" where
  "Patient_save otherPathsValid doc store =
     (if \<not> validate_patient otherPathsValid doc then ValidationError
      else if unique_index_conflict doc store then DuplicateKey
      else Saved (store @ [doc]))"

text \<open>
  \<^verbatim>\<open>new Patient(data)\<close>: the schema trims the names and lower-cases and trims the email;
  \<^verbatim>\<open>idNumber\<close> has no setter. A missing string path is written as the empty string, which
  validation refuses like a missing one. \<open>parseDate\<close> is the \<^verbatim>\<open>Date\<close> constructor on a
  string (\<open>None\<close> for an invalid date), \<open>newOid\<close> and \<open>newPatientId\<close> are the generated
  \<^verbatim>\<open>_id\<close> and the schema's default \<^verbatim>\<open>patientId\<close>.
\<close>

definition or_empty :: "string option \<Rightarrow> string" where
  "or_empty v = (case v of None \<Rightarrow> [] | Some s \<Rightarrow> s)"

definition new_Patient ::
  "(string \<Rightarrow> calendar_date option) \<Rightarrow> oid \<Rightarrow> string \<Rightarrow> patient_body \<Rightarrow> patient" where
  "new_Patient parseDate newOid newPatientId b =
     \<lparr>pat_oid = newOid, patientId = newPatientId,
      firstName = trim (or_empty (req_firstName b)),
      lastName = trim (or_empty (req_lastName b)),
      dateOfBirth = Option.bind (req_dateOfBirth b) parseDate,
      gender = or_empty (req_gender b),
      idNumber = or_empty (req_idNumber b),
      email = trim (toLowerCase (or_empty (req_email b)))\<rparr>"

text \<open>
  \<^verbatim>\<open>Patient.findOne({ $or: [{ email: e }, { idNumber: i }] })\<close> finds a document. The
  filter is cast through the schema before it is compared with the stored values: the
  e-mail goes through the setters of its path, \<^verbatim>\<open>lowercase\<close> and \<^verbatim>\<open>trim\<close>; \<^verbatim>\<open>idNumber\<close>
  has no setter and is compared as given.
\<close>

definition cast_email :: "string \<Rightarrow> string" where
  "cast_email e = trim (toLowerCase e)"

definition existingPatient :: "string option \<Rightarrow> string option \<Rightarrow> patient list \<Rightarrow> bool" where
  "existingPatient e i store =
     list_ex (\<lambda>p. Some (email p) = map_option cast_email e \<or> Some (idNumber p) = i) store"

text \<open>\<^verbatim>\<open>POST /api/patients\<close>: the HTTP status and the collection afterwards.\<close>

definition post_patients ::
  "(string \<Rightarrow> calendar_date option) \<Rightarrow> oid \<Rightarrow> string \<Rightarrow> bool \<Rightarrow> patient_body \<Rightarrow> patient list
   \<Rightarrow> nat \<times> patient list" where
  "post_patients parseDate newOid newPatientId otherPathsValid patientData store =
     (if existingPatient (req_email patientData) (req_idNumber patientData) store
      then (400, store)
      else case Patient_save otherPathsValid
                  (new_Patient parseDate newOid newPatientId patientData) store of
             Saved store' \<Rightarrow> (201, store')
           | ValidationError \<Rightarrow> (500, store)
           | DuplicateKey \<Rightarrow> (500, store))"

text \<open>
  \<^verbatim>\<open>POST /api/patients/register\<close>: the required fields, the lookup on the lower-cased,
  trimmed email and the trimmed id number, then the save of a document built from the
  trimmed fields; a validation error and a duplicate key both answer 400.
\<close>

definition missing_required :: "patient_body \<Rightarrow> bool" where
  "missing_required body =
     (falsy (req_firstName body) \<or> falsy (req_lastName body) \<or> falsy (req_dateOfBirth body)
      \<or> falsy (req_gender body) \<or> falsy (req_idNumber body) \<or> falsy (req_email body)
      \<or> falsy (req_phone body) \<or> falsy (req_address body) \<or> falsy (req_city body))"

definition newPatient ::
  "(string \<Rightarrow> calendar_date option) \<Rightarrow> oid \<Rightarrow> string \<Rightarrow> patient_body \<Rightarrow> patient" where
  "newPatient parseDate newOid newPatientId body =
     new_Patient parseDate newOid newPatientId
       (body\<lparr>req_firstName := Some (trim (or_empty (req_firstName body))),
              req_lastName := Some (trim (or_empty (req_lastName body))),
              req_idNumber := Some (trim (or_empty (req_idNumber body))),
              req_email := Some (trim (toLowerCase (or_empty (req_email body))))\<rparr>)"

definition post_register ::
  "(string \<Rightarrow> calendar_date option) \<Rightarrow> oid \<Rightarrow> string \<Rightarrow> bool \<Rightarrow> patient_body \<Rightarrow> patient list
   \<Rightarrow> nat \<times> patient list" where
  "post_register parseDate newOid newPatientId otherPathsValid body store =
     (if missing_required body then (400, store)
      else if existingPatient (Some (trim (toLowerCase (or_empty (req_email body)))))
                              (Some (trim (or_empty (req_idNumber body)))) store
      then (400, store)
      else case Patient_save otherPathsValid
                  (newPatient parseDate newOid newPatientId body) store of
             Saved store' \<Rightarrow> (201, store')
           | ValidationError \<Rightarrow> (400, store)
           | DuplicateKey \<Rightarrow> (400, store))"

section \<open>Authentication middleware\<close>

text \<open>
  A middleware either answers with an HTTP status or calls \<^verbatim>\<open>next()\<close> with what it has put
  on the request. The input is the \<^verbatim>\<open>Authorization\<close> header, \<open>None\<close> when the request has
  none. \<open>verify\<close> is \<^verbatim>\<open>jwt.verify\<close> with the server's secret: the token's payload, or
  \<open>None\<close> for a token that is invalid or has expired.
\<close>

datatype 'a middleware_result = Responded nat | Next 'a

text \<open>
  The patient routes: \<^verbatim>\<open>authHeader && authHeader.split(' ')[1]\<close>, 401 without a token,
  403 when verification fails, otherwise \<^verbatim>\<open>req.patient\<close> is the payload.
\<close>

definition bearer_token :: "string option \<Rightarrow> string option" where
  "bearer_token authHeader =
     (case authHeader of
        None \<Rightarrow> None
      | Some h \<Rightarrow> if h = [] then None
                  else (case split_on CHR '' '' h of _ # t # _ \<Rightarrow> Some t | _ \<Rightarrow> None))"

definition authenticateToken ::
  "(string \<Rightarrow> 'p option) \<Rightarrow> string option \<Rightarrow> 'p middleware_result" where
  "authenticateToken verify authHeader =
     (if falsy (bearer_token authHeader) then Responded 401
      else case verify (or_empty (bearer_token authHeader)) of
             None \<Rightarrow> Responded 403
           | Some payload \<Rightarrow> Next payload)"

text \<open>
  The doctor routes: \<^verbatim>\<open>auth\<close> and \<^verbatim>\<open>adminAuth\<close>, marked in the source as temporary
  middleware for testing, put a fixed user on every request.
\<close>

record req_user =
  user_id :: string
  user_role :: string
  user_doctorId :: "string option"

definition auth :: "string option \<Rightarrow> req_user middleware_result" where
  "auth authHeader =
     Next \<lparr>user_id = ''temp-user-id'', user_role = ''user'',
           user_doctorId = Some ''temp-doctor-id''\<rparr>"

definition adminAuth :: "string option \<Rightarrow> req_user middleware_result" where
  "adminAuth authHeader =
     Next \<lparr>user_id = ''temp-admin-id'', user_role = ''admin'', user_doctorId = None\<rparr>"

section \<open>The appointment write operations as the server routes them\<close>














section \<open>Example documents\<close>

text \<open>
  A doctor working Mondays and Thursdays from 09:00 to 12:00 with a break from 10:00 to
  11:00 and half-hour slots; the theorems below are instantiated at it.
\<close>

definition doctor0 :: doctor where
  "doctor0 = \<lparr>availability = \<lparr>workingDays = [''monday'', ''thursday''],
                 startTime = ''09:00'', endTime = ''12:00'', breakStart = ''10:00'',
                 breakEnd = ''11:00'', slotDuration = 30\<rparr>,
               isAvailable = True, status = ''active'',
               rating = \<lparr>average = Some 0, totalReviews = 0,
                 breakdown = \<lparr>count5 = 0, count4 = 0, count3 = 0, count2 = 0, count1 = 0\<rparr>\<rparr>\<rparr>"

text \<open>The same doctor after one review of five stars and one of four.\<close>

definition doctor1 :: doctor where
  "doctor1 = doctor0\<lparr>rating := \<lparr>average = Some (9 / 2), totalReviews = 2,
                 breakdown = \<lparr>count5 = 1, count4 = 1, count3 = 0, count2 = 0, count1 = 0\<rparr>\<rparr>\<rparr>"

text \<open>
  A request body for \<^verbatim>\<open>POST /api/appointments\<close>, and a collection of two scheduled
  appointments of doctor \<^verbatim>\<open>DOC1\<close> on one date, both at 09:00 for 30 minutes.
\<close>

definition body0 :: appointment_body where
  "body0 = \<lparr>body_appointmentId = None, body_patient = Some 7, body_patientId = Some ''PAT1'',
             body_doctor = Some 3, body_doctorId = Some ''DOC1'', body_appointmentDate = Some 0,
             body_appointmentTime = Some ''09:00'', body_duration = None,
             body_reason = Some ''checkup'', body_status = None\<rparr>"

definition store2 :: "appointment list" where
  "store2 =
     [\<lparr>apt_id = 1, appointmentId = ''APT1000'', patient = 7, patientId = ''PAT1'', doctor = 3,
       doctorId = ''DOC1'', appointmentDate = 0, appointmentTime = ''09:00'',
       duration = Some 30, reason = ''checkup'', status = ''scheduled''\<rparr>,
      \<lparr>apt_id = 2, appointmentId = ''APT2000'', patient = 7, patientId = ''PAT1'', doctor = 3,
       doctorId = ''DOC1'', appointmentDate = 0, appointmentTime = ''09:00'',
       duration = Some 30, reason = ''checkup'', status = ''scheduled''\<rparr>]"


text \<open>
  A stored patient whose id number has a space on either side, the body \<open>body_ann\<close> from
  which \<^verbatim>\<open>POST /api/patients\<close> stores it so, and three more request bodies: one with the
  same id number, one with that patient's email in other letter case and with a trailing
  space, one with the email as stored.
\<close>

definition patient0 :: patient where
  "patient0 = \<lparr>pat_oid = 1, patientId = ''PAT000001'', firstName = ''Ann'', lastName = ''Lee'',
                dateOfBirth = Some \<lparr>getFullYear = 1990, getMonth = 5, getDate = 15\<rparr>,
                gender = ''female'', idNumber = '' 123 '', email = ''ann@example.com''\<rparr>"

definition body1 :: patient_body where
  "body1 = \<lparr>req_firstName = Some ''Bob'', req_lastName = Some ''Ray'',
             req_dateOfBirth = Some ''1985-03-02'', req_gender = Some ''male'',
             req_idNumber = Some '' 123 '', req_email = Some ''bob@example.com'',
             req_phone = Some ''0700000000'', req_address = Some ''1 Main St'',
             req_city = Some ''Nairobi''\<rparr>"

definition parseDate0 :: "string \<Rightarrow> calendar_date option" where
  "parseDate0 s =
     (if s = ''1985-03-02'' then Some \<lparr>getFullYear = 1985, getMonth = 2, getDate = 2\<rparr>
      else if s = ''1990-06-15'' then Some \<lparr>getFullYear = 1990, getMonth = 5, getDate = 15\<rparr>
      else None)"

definition body_ann :: patient_body where
  "body_ann = \<lparr>req_firstName = Some ''Ann'', req_lastName = Some ''Lee'',
                req_dateOfBirth = Some ''1990-06-15'', req_gender = Some ''female'',
                req_idNumber = Some '' 123 '', req_email = Some ''ann@example.com'',
                req_phone = Some ''0711111111'', req_address = Some ''2 Hill Rd'',
                req_city = Some ''Nakuru''\<rparr>"

definition body2 :: patient_body where
  "body2 = body1\<lparr>req_idNumber := Some ''456'', req_email := Some ''Ann@Example.com ''\<rparr>"

definition body3 :: patient_body where
  "body3 = body1\<lparr>req_idNumber := Some ''456'', req_email := Some ''ann@example.com''\<rparr>"





section \<open>Strings and minutes\<close>

lemma is_digit_not_colon: "is_digit c \<Longrightarrow> c \<noteq> CHR '':''"
  by (auto simp: is_digit_def)

lemma digit_char_props:
  assumes "n < 10"
  shows "is_digit (digit_char n)" and "digit_val (digit_char n) = int n"
  using assms by (simp_all add: is_digit_def digit_val_def digit_char_def)

lemma digit_val_bounds: "is_digit c \<Longrightarrow> 0 \<le> digit_val c \<and> digit_val c \<le> 9"
  by (auto simp: is_digit_def digit_val_def)

lemma dec_value_snoc: "dec_value (s @ [c]) = 10 * dec_value s + digit_val c"
  by (simp add: dec_value_def)

lemma nat_toString_digits: "list_all is_digit (nat_toString n)"
proof (induction n rule: nat_toString.induct)
  case (1 n)
  show ?case
  proof (cases "n < 10")
    case True
    then show ?thesis by (subst nat_toString.simps) (simp add: digit_char_props)
  next
    case False
    with 1 show ?thesis by (subst nat_toString.simps) (simp add: digit_char_props)
  qed
qed

lemma nat_toString_value: "dec_value (nat_toString n) = int n"
proof (induction n rule: nat_toString.induct)
  case (1 n)
  show ?case
  proof (cases "n < 10")
    case True
    then show ?thesis
      by (subst nat_toString.simps) (simp add: dec_value_def digit_char_props)
  next
    case False
    with 1 have "dec_value (nat_toString (n div 10)) = int (n div 10)" by simp
    with False show ?thesis
      by (subst nat_toString.simps) (simp add: dec_value_snoc digit_char_props zdiv_int zmod_int)
  qed
qed

lemma split_on_no_sep: "sep \<notin> set xs \<Longrightarrow> split_on sep xs = [xs]"
  by (induction xs) auto

lemma split_on_first: "sep \<notin> set xs \<Longrightarrow> split_on sep (xs @ sep # ys) = xs # split_on sep ys"
  by (induction xs) auto

lemma digits_no_colon: "list_all is_digit s \<Longrightarrow> CHR '':'' \<notin> set s"
  by (induction s) (auto dest: is_digit_not_colon)

lemma digit_not_space: "is_digit c \<Longrightarrow> \<not> is_space c"
  by (auto simp: is_digit_def is_space_def)

lemma dropWhile_none: "\<forall>c \<in> set s. \<not> P c \<Longrightarrow> dropWhile P s = s"
  by (cases s) simp_all

lemma trim_digits: "list_all is_digit s \<Longrightarrow> trim s = s"
proof -
  assume "list_all is_digit s"
  then have n: "\<forall>c \<in> set s. \<not> is_space c"
    by (auto simp: list_all_iff digit_not_space)
  then have "\<forall>c \<in> set (rev s). \<not> is_space c" by simp
  with n show ?thesis by (simp add: trim_def dropWhile_none)
qed

lemma js_Number_digits:
  assumes "list_all is_digit s"
  shows "js_Number s = Some (dec_value s)"
proof (cases s)
  case Nil
  then show ?thesis by (simp add: js_Number_def trim_def dec_value_def)
next
  case (Cons c r)
  with assms have c: "is_digit c" and r: "list_all is_digit r" by simp_all
  from c have s: "c \<noteq> CHR ''+''" "c \<noteq> CHR ''-''" by (auto simp: is_digit_def)
  have p: "r \<noteq> [] \<longrightarrow> hd r \<notin> set ''xXoObB''"
  proof
    assume "r \<noteq> []"
    with r have "is_digit (hd r)" by (cases r) simp_all
    then show "hd r \<notin> set ''xXoObB''" by (auto simp: is_digit_def)
  qed
  from assms have "trim s = c # r" by (simp add: trim_digits Cons)
  with s p assms Cons show ?thesis
    by (auto simp: js_Number_def unsigned_integer_def)
qed

lemma hm_minutes_digits:
  assumes "list_all is_digit hs" and "list_all is_digit ms"
  shows "hm_minutes (hs @ '':'' @ ms) = Some (dec_value hs * 60 + dec_value ms)"
proof -
  have "split_on CHR '':'' (hs @ CHR '':'' # ms) = [hs, ms]"
    using assms by (simp add: split_on_first split_on_no_sep digits_no_colon)
  then show ?thesis
    using assms by (simp add: hm_minutes_def js_Number_digits)
qed

lemma padStart2_digits: "list_all is_digit s \<Longrightarrow> list_all is_digit (padStart2 s)"
  by (auto simp: padStart2_def is_digit_def list_all_iff)

lemma dec_value_zeros: "dec_value (replicate k CHR ''0'' @ s) = dec_value s"
  by (induction k) (simp_all add: dec_value_def digit_val_def)

lemma padStart2_value: "dec_value (padStart2 s) = dec_value s"
  by (simp add: padStart2_def dec_value_zeros)

lemma hm_minutes_timeString:
  assumes "0 \<le> t"
  shows "hm_minutes (timeString (Some t)) = Some t"
proof -
  let ?h = "int_toString (t div 60)" and ?m = "int_toString (js_rem t 60)"
  from assms have h: "?h = nat_toString (nat (t div 60))"
    by (simp add: int_toString_def pos_imp_zdiv_nonneg_iff)
  from assms have m: "?m = nat_toString (nat (t mod 60))"
    by (simp add: int_toString_def js_rem_def)
  have "hm_minutes (padStart2 ?h @ '':'' @ padStart2 ?m)
        = Some (dec_value (padStart2 ?h) * 60 + dec_value (padStart2 ?m))"
    by (rule hm_minutes_digits) (simp_all add: h m padStart2_digits nat_toString_digits)
  also have "\<dots> = Some (t div 60 * 60 + t mod 60)"
    using assms by (simp add: h m padStart2_value nat_toString_value pos_imp_zdiv_nonneg_iff)
  finally show ?thesis by (simp add: timeString_def)
qed

lemma padStart2_small:
  assumes "n < 100"
  shows "\<exists>a b. padStart2 (nat_toString n) = [a, b] \<and> is_digit a \<and> is_digit b"
proof (cases "n < 10")
  case True
  then have "padStart2 (nat_toString n) = [CHR ''0'', digit_char n]"
    by (subst nat_toString.simps) (simp add: padStart2_def)
  moreover have "is_digit CHR ''0''" by (simp add: is_digit_def)
  ultimately show ?thesis using True by (simp add: digit_char_props)
next
  case False
  with assms have "n div 10 < 10" by simp
  with False have "padStart2 (nat_toString n) = [digit_char (n div 10), digit_char (n mod 10)]"
    by (subst nat_toString.simps, subst nat_toString.simps) (simp add: padStart2_def)
  with \<open>n div 10 < 10\<close> show ?thesis by (simp add: digit_char_props)
qed

lemma timeString_HHMM:
  assumes "0 \<le> t" and "t < 6000"
  shows "is_HHMM (timeString (Some t))"
proof -
  from assms have h: "int_toString (t div 60) = nat_toString (nat (t div 60))"
    by (simp add: int_toString_def pos_imp_zdiv_nonneg_iff)
  from assms have m: "int_toString (js_rem t 60) = nat_toString (nat (t mod 60))"
    by (simp add: int_toString_def js_rem_def)
  from assms have "nat (t div 60) < 100" by simp
  from padStart2_small [OF this] obtain a b where
    ab: "padStart2 (nat_toString (nat (t div 60))) = [a, b]" "is_digit a" "is_digit b" by blast
  have "nat (t mod 60) < 100" by simp
  from padStart2_small [OF this] obtain c d where
    cd: "padStart2 (nat_toString (nat (t mod 60))) = [c, d]" "is_digit c" "is_digit d" by blast
  show ?thesis by (simp add: timeString_def h m ab cd)
qed

lemma time_string_minutes:
  assumes "is_time_string s"
  shows "\<exists>m. hm_minutes s = Some m \<and> 0 \<le> m \<and> m < 1440"
  using assms
proof (cases s rule: is_time_string.cases)
  case (1 h c m1 m2)
  with assms have d: "is_digit h" "is_digit m1" "is_digit m2" "c = CHR '':''"
    and b: "digit_val m1 \<le> 5"
    by (auto simp: is_digit_def digit_val_def)
  from d have "hm_minutes ([h] @ '':'' @ [m1, m2]) = Some (dec_value [h] * 60 + dec_value [m1, m2])"
    by (intro hm_minutes_digits) simp_all
  with 1 d b digit_val_bounds [of h] digit_val_bounds [of m1] digit_val_bounds [of m2]
  show ?thesis by (simp add: dec_value_def)
next
  case (2 h1 h2 c m1 m2)
  with assms have d: "is_digit h1" "is_digit h2" "is_digit m1" "is_digit m2" "c = CHR '':''"
    and b: "digit_val m1 \<le> 5" "10 * digit_val h1 + digit_val h2 \<le> 23"
    by (auto simp: is_digit_def digit_val_def)
  from d have "hm_minutes ([h1, h2] @ '':'' @ [m1, m2])
               = Some (dec_value [h1, h2] * 60 + dec_value [m1, m2])"
    by (intro hm_minutes_digits) simp_all
  with 2 d b digit_val_bounds [of h1] digit_val_bounds [of h2]
       digit_val_bounds [of m1] digit_val_bounds [of m2]
  show ?thesis by (simp add: dec_value_def)
qed (use assms in simp_all)

lemma clock_minutes_hm:
  assumes "clock_minutes s = Some n"
  shows "hm_minutes s = Some n"
  using assms
proof (cases s rule: clock_minutes.cases)
  case (1 h c m1 m2)
  with assms have d: "is_digit h" "is_digit m1" "is_digit m2" "c = CHR '':''"
    and n: "n = digit_val h * 60 + (digit_val m1 * 10 + digit_val m2)"
    by (auto split: if_splits)
  from d have "hm_minutes ([h] @ '':'' @ [m1, m2]) = Some (dec_value [h] * 60 + dec_value [m1, m2])"
    by (intro hm_minutes_digits) simp_all
  with 1 d n show ?thesis by (simp add: dec_value_def)
next
  case (2 h1 h2 c m1 m2)
  with assms have d: "is_digit h1" "is_digit h2" "is_digit m1" "is_digit m2" "c = CHR '':''"
    and n: "n = (digit_val h1 * 10 + digit_val h2) * 60 + (digit_val m1 * 10 + digit_val m2)"
    by (auto split: if_splits)
  from d have "hm_minutes ([h1, h2] @ '':'' @ [m1, m2])
               = Some (dec_value [h1, h2] * 60 + dec_value [m1, m2])"
    by (intro hm_minutes_digits) simp_all
  with 2 d n show ?thesis by (simp add: dec_value_def)
qed (use assms in simp_all)

text \<open>
  White space around a part of the time string is dropped by \<^verbatim>\<open>Number\<close>; a string without a
  colon has no minutes and reads as \<^verbatim>\<open>NaN\<close>.
\<close>

lemma hm_minutes_readings:
  "hm_minutes ''09:00 '' = Some 540 \<and> hm_minutes '' 9:05'' = Some 545
   \<and> hm_minutes ''930'' = None \<and> hm_minutes ''abc'' = None"
  by code_simp

section \<open>Slot generation\<close>

lemma slot_loop_total:
  assumes "0 < dur"
  shows "\<exists>ns. slot_loop dur (Some e) (Some bs) (Some be) (Some c, acc)
                 = Some (acc @ map (\<lambda>n. timeString (Some n)) ns)
              \<and> (\<forall>n \<in> set ns. c \<le> n \<and> n + dur \<le> e \<and> \<not> (bs \<le> n \<and> n < be))
              \<and> sorted_wrt (\<lambda>a b. a + dur \<le> b) ns"
proof (induction "nat (e - c)" arbitrary: c acc rule: less_induct)
  case less
  show ?case
  proof (cases "c + dur \<le> e")
    case False
    then have "slot_loop dur (Some e) (Some bs) (Some be) (Some c, acc) = Some (acc @ map (\<lambda>n. timeString (Some n)) [])"
      by (subst slot_loop.simps) (simp add: slot_guard_def js_le_def js_add_def)
    then show ?thesis by (intro exI [of _ "[]"]) simp
  next
    case guard: True
    show ?thesis
    proof (cases "bs \<le> c \<and> c < be")
      case True
      with guard assms have "nat (e - be) < nat (e - c)" by simp
      from less [OF this, of acc] obtain ns where
        ns: "slot_loop dur (Some e) (Some bs) (Some be) (Some be, acc)
               = Some (acc @ map (\<lambda>n. timeString (Some n)) ns)"
            "\<forall>n \<in> set ns. be \<le> n \<and> n + dur \<le> e \<and> \<not> (bs \<le> n \<and> n < be)"
            "sorted_wrt (\<lambda>a b. a + dur \<le> b) ns" by blast
      from guard True have "slot_loop dur (Some e) (Some bs) (Some be) (Some c, acc)
             = slot_loop dur (Some e) (Some bs) (Some be) (Some be, acc)"
        by (subst slot_loop.simps) (simp add: slot_guard_def slot_body_def js_le_def js_lt_def js_add_def)
      with ns True show ?thesis by (intro exI [of _ ns]) auto
    next
      case False
      from guard assms have "nat (e - (c + dur)) < nat (e - c)" by simp
      from less [OF this, of "acc @ [timeString (Some c)]"] obtain ns where
        ns: "slot_loop dur (Some e) (Some bs) (Some be) (Some (c + dur), acc @ [timeString (Some c)])
               = Some ((acc @ [timeString (Some c)]) @ map (\<lambda>n. timeString (Some n)) ns)"
            "\<forall>n \<in> set ns. c + dur \<le> n \<and> n + dur \<le> e \<and> \<not> (bs \<le> n \<and> n < be)"
            "sorted_wrt (\<lambda>a b. a + dur \<le> b) ns" by blast
      from guard False have "slot_loop dur (Some e) (Some bs) (Some be) (Some c, acc)
             = slot_loop dur (Some e) (Some bs) (Some be) (Some (c + dur), acc @ [timeString (Some c)])"
        by (subst slot_loop.simps) (auto simp add: slot_guard_def slot_body_def js_le_def js_lt_def js_add_def)
      with ns False guard assms show ?thesis by (intro exI [of _ "c # ns"]) auto
    qed
  qed
qed


lemma generateTimeSlots_total:
  assumes wf: "times_wellformed (availability d)" and pos: "0 < slotDuration (availability d)"
  shows "\<exists>st en bs be ns.
           hm_minutes (startTime (availability d)) = Some st
         \<and> hm_minutes (endTime (availability d)) = Some en
         \<and> hm_minutes (breakStart (availability d)) = Some bs
         \<and> hm_minutes (breakEnd (availability d)) = Some be
         \<and> 0 \<le> st \<and> en < 1440
         \<and> generateTimeSlots tz d date = Some (map (\<lambda>n. timeString (Some n)) ns)
         \<and> (dayName tz date \<notin> set (workingDays (availability d)) \<longrightarrow> ns = [])
         \<and> (\<forall>n \<in> set ns. st \<le> n \<and> n + slotDuration (availability d) \<le> en
                            \<and> \<not> (bs \<le> n \<and> n < be))
         \<and> sorted_wrt (\<lambda>a b. a + slotDuration (availability d) \<le> b) ns"
proof -
  let ?a = "availability d"
  from wf obtain st en bs be where
    p: "hm_minutes (startTime ?a) = Some st" "hm_minutes (endTime ?a) = Some en"
       "hm_minutes (breakStart ?a) = Some bs" "hm_minutes (breakEnd ?a) = Some be"
    and b: "0 \<le> st" "en < 1440"
    unfolding times_wellformed_def by (metis time_string_minutes)
  show ?thesis
  proof (cases "dayName tz date \<in> set (workingDays ?a)")
    case False
    then have "generateTimeSlots tz d date = Some (map (\<lambda>n. timeString (Some n)) [])"
      by (simp add: generateTimeSlots_def)
    with p b False show ?thesis by (intro exI [of _ "[]"] exI conjI) simp_all
  next
    case True
    from slot_loop_total [OF pos, of en bs be st "[]"] obtain ns where
      ns: "slot_loop (slotDuration ?a) (Some en) (Some bs) (Some be) (Some st, [])
             = Some (map (\<lambda>n. timeString (Some n)) ns)"
          "\<forall>n \<in> set ns. st \<le> n \<and> n + slotDuration ?a \<le> en \<and> \<not> (bs \<le> n \<and> n < be)"
          "sorted_wrt (\<lambda>a b. a + slotDuration ?a \<le> b) ns" by auto
    from True p ns(1) have "generateTimeSlots tz d date = Some (map (\<lambda>n. timeString (Some n)) ns)"
      by (simp add: generateTimeSlots_def)
    with p b True ns(2,3) show ?thesis by blast
  qed
qed

text \<open>
  C3: when the date's weekday is not a working day, \<open>generateTimeSlots\<close> returns the empty
  list. For a doctor whose availability times match the schema's pattern and whose slot
  duration is positive it returns a list, and every slot of it is a zero-padded
  \<^verbatim>\<open>HH:MM\<close> string whose minutes \<open>s\<close> satisfy \<open>startTime \<le> s\<close>,
  \<open>s + slotDuration \<le> endTime\<close> and not \<open>breakStart \<le> s < breakEnd\<close>.
\<close>

theorem generateTimeSlots_within_hours:
  "(dayName tz date \<notin> set (workingDays (availability d))
      \<longrightarrow> generateTimeSlots tz d date = Some [])
   \<and> (times_wellformed (availability d) \<and> 0 < slotDuration (availability d) \<longrightarrow>
        (\<exists>slots st en bs be.
           generateTimeSlots tz d date = Some slots
         \<and> hm_minutes (startTime (availability d)) = Some st
         \<and> hm_minutes (endTime (availability d)) = Some en
         \<and> hm_minutes (breakStart (availability d)) = Some bs
         \<and> hm_minutes (breakEnd (availability d)) = Some be
         \<and> (\<forall>x \<in> set slots. is_HHMM x \<and>
               (\<exists>s. hm_minutes x = Some s \<and> st \<le> s
                    \<and> s + slotDuration (availability d) \<le> en \<and> \<not> (bs \<le> s \<and> s < be)))))"
proof (intro conjI impI)
  assume "dayName tz date \<notin> set (workingDays (availability d))"
  then show "generateTimeSlots tz d date = Some []"
    by (simp add: generateTimeSlots_def)
next
  assume a: "times_wellformed (availability d) \<and> 0 < slotDuration (availability d)"
  then have wf: "times_wellformed (availability d)" and pos: "0 < slotDuration (availability d)"
    by simp_all
  from generateTimeSlots_total [OF wf pos, of tz date] obtain st en bs be ns where
    p: "hm_minutes (startTime (availability d)) = Some st"
       "hm_minutes (endTime (availability d)) = Some en"
       "hm_minutes (breakStart (availability d)) = Some bs"
       "hm_minutes (breakEnd (availability d)) = Some be"
    and b: "0 \<le> st" "en < 1440"
    and g: "generateTimeSlots tz d date = Some (map (\<lambda>n. timeString (Some n)) ns)"
    and r: "\<forall>n \<in> set ns. st \<le> n \<and> n + slotDuration (availability d) \<le> en
                            \<and> \<not> (bs \<le> n \<and> n < be)"
    by blast
  have "is_HHMM (timeString (Some n)) \<and> hm_minutes (timeString (Some n)) = Some n"
    if "n \<in> set ns" for n
  proof -
    from that r b pos have "0 \<le> n" "n < 6000" by force+
    then show ?thesis by (simp add: timeString_HHMM hm_minutes_timeString)
  qed
  with r have "\<forall>x \<in> set (map (\<lambda>n. timeString (Some n)) ns). is_HHMM x \<and>
               (\<exists>s. hm_minutes x = Some s \<and> st \<le> s
                    \<and> s + slotDuration (availability d) \<le> en \<and> \<not> (bs \<le> s \<and> s < be))"
    by auto
  with p g show "\<exists>slots st en bs be.
           generateTimeSlots tz d date = Some slots
         \<and> hm_minutes (startTime (availability d)) = Some st
         \<and> hm_minutes (endTime (availability d)) = Some en
         \<and> hm_minutes (breakStart (availability d)) = Some bs
         \<and> hm_minutes (breakEnd (availability d)) = Some be
         \<and> (\<forall>x \<in> set slots. is_HHMM x \<and>
               (\<exists>s. hm_minutes x = Some s \<and> st \<le> s
                    \<and> s + slotDuration (availability d) \<le> en \<and> \<not> (bs \<le> s \<and> s < be)))"
    by (intro exI conjI) (assumption | simp)+
qed

theorem generateTimeSlots_within_hours_witness:
  "times_wellformed (availability doctor0) \<and> 0 < slotDuration (availability doctor0)
   \<and> generateTimeSlots 0 doctor0 (Some 0) = Some [''09:00'', ''09:30'', ''11:00'', ''11:30'']
   \<and> dayName 0 (Some 86400000) \<notin> set (workingDays (availability doctor0))
   \<and> generateTimeSlots 0 doctor0 (Some 86400000) = Some []
   \<and> is_HHMM ''11:00''
   \<and> (\<exists>s. hm_minutes ''11:00'' = Some s \<and> 540 \<le> s \<and> s + 30 \<le> 720 \<and> \<not> (600 \<le> s \<and> s < 660))"
proof -
  have h: "times_wellformed (availability doctor0) \<and> 0 < slotDuration (availability doctor0)"
    by code_simp
  have g: "generateTimeSlots 0 doctor0 (Some 0) = Some [''09:00'', ''09:30'', ''11:00'', ''11:30'']"
    by code_simp
  have p: "hm_minutes (startTime (availability doctor0)) = Some 540"
          "hm_minutes (endTime (availability doctor0)) = Some 720"
          "hm_minutes (breakStart (availability doctor0)) = Some 600"
          "hm_minutes (breakEnd (availability doctor0)) = Some 660"
          "slotDuration (availability doctor0) = 30"
    by code_simp+
  have n: "dayName 0 (Some 86400000) \<notin> set (workingDays (availability doctor0))" by code_simp
  have e: "generateTimeSlots 0 doctor0 (Some 86400000) = Some []"
    by (rule generateTimeSlots_within_hours
          [where tz = 0 and date = "Some 86400000" and d = doctor0, THEN conjunct1, THEN mp])
       (rule n)
  from generateTimeSlots_within_hours
         [where tz = 0 and date = "Some 0" and d = doctor0, THEN conjunct2, THEN mp, OF h] g p
  have "\<forall>x \<in> set [''09:00'', ''09:30'', ''11:00'', ''11:30'']. is_HHMM x \<and>
         (\<exists>s. hm_minutes x = Some s \<and> 540 \<le> s \<and> s + 30 \<le> 720 \<and> \<not> (600 \<le> s \<and> s < 660))"
    by auto
  then have "is_HHMM ''11:00'' \<and>
         (\<exists>s. hm_minutes ''11:00'' = Some s \<and> 540 \<le> s \<and> s + 30 \<le> 720 \<and> \<not> (600 \<le> s \<and> s < 660))"
    by simp
  with h g n e show ?thesis by blast
qed

text \<open>
  C9: with a positive slot duration the slots, read as minutes, are strictly increasing,
  consecutive slots are at least \<open>slotDuration\<close> apart, and the intervals
  \<open>[s, s + slotDuration)\<close> of any two slots are disjoint.
\<close>

theorem generateTimeSlots_increasing:
  assumes "times_wellformed (availability d)" and "0 < slotDuration (availability d)"
  shows "\<exists>slots ns.
           generateTimeSlots tz d date = Some slots
         \<and> map hm_minutes slots = map Some ns
         \<and> (\<forall>i. Suc i < length ns \<longrightarrow>
                ns ! i < ns ! Suc i \<and> ns ! i + slotDuration (availability d) \<le> ns ! Suc i)
         \<and> (\<forall>i j. i < j \<and> j < length ns \<longrightarrow>
                {ns ! i ..< ns ! i + slotDuration (availability d)}
                \<inter> {ns ! j ..< ns ! j + slotDuration (availability d)} = {})"
proof -
  let ?dur = "slotDuration (availability d)"
  from generateTimeSlots_total [OF assms, of tz date] obtain st en bs be ns where
    b: "0 \<le> st"
    and g: "generateTimeSlots tz d date = Some (map (\<lambda>n. timeString (Some n)) ns)"
    and r: "\<forall>n \<in> set ns. st \<le> n \<and> n + ?dur \<le> en \<and> \<not> (bs \<le> n \<and> n < be)"
    and s: "sorted_wrt (\<lambda>a b. a + ?dur \<le> b) ns"
    by blast
  from r b have "\<forall>n \<in> set ns. hm_minutes (timeString (Some n)) = Some n"
    by (auto simp: hm_minutes_timeString)
  then have m: "map hm_minutes (map (\<lambda>n. timeString (Some n)) ns) = map Some ns"
    by simp
  from s have gap: "ns ! i + ?dur \<le> ns ! j" if "i < j" "j < length ns" for i j
    using that by (simp add: sorted_wrt_iff_nth_less)
  have c: "\<forall>i. Suc i < length ns \<longrightarrow> ns ! i < ns ! Suc i \<and> ns ! i + ?dur \<le> ns ! Suc i"
    using gap [of _ "Suc _"] assms(2) by fastforce
  have dj: "\<forall>i j. i < j \<and> j < length ns \<longrightarrow>
              {ns ! i ..< ns ! i + ?dur} \<inter> {ns ! j ..< ns ! j + ?dur} = {}"
    using gap by fastforce
  from g m c dj show ?thesis by blast
qed

theorem generateTimeSlots_increasing_witness:
  "times_wellformed (availability doctor0) \<and> 0 < slotDuration (availability doctor0)
   \<and> generateTimeSlots 0 doctor0 (Some 0) = Some [''09:00'', ''09:30'', ''11:00'', ''11:30'']
   \<and> map hm_minutes [''09:00'', ''09:30'', ''11:00'', ''11:30''] = map Some [540, 570, 660, 690]
   \<and> [540, 570, 660, 690 :: int] ! 1 + 30 \<le> [540, 570, 660, 690] ! Suc 1"
proof -
  have h1: "times_wellformed (availability doctor0)" by code_simp
  have h2: "0 < slotDuration (availability doctor0)" by code_simp
  have g: "generateTimeSlots 0 doctor0 (Some 0) = Some [''09:00'', ''09:30'', ''11:00'', ''11:30'']"
    by code_simp
  have m: "map hm_minutes [''09:00'', ''09:30'', ''11:00'', ''11:30''] = map Some [540, 570, 660, 690]"
    by code_simp
  have d: "slotDuration (availability doctor0) = 30" by code_simp
  from generateTimeSlots_increasing [OF h1 h2, of 0 "Some 0"] obtain slots ns where
    a: "generateTimeSlots 0 doctor0 (Some 0) = Some slots"
       "map hm_minutes slots = map Some ns"
       "\<forall>i. Suc i < length ns \<longrightarrow>
          ns ! i < ns ! Suc i \<and> ns ! i + slotDuration (availability doctor0) \<le> ns ! Suc i"
    by blast
  from a(1) g have "slots = [''09:00'', ''09:30'', ''11:00'', ''11:30'']" by simp
  with a(2) m have "map Some ns = map Some [540, 570, 660, 690]" by simp
  then have "ns = [540, 570, 660, 690]" by (rule map_injective) simp
  with a(3) d have "[540, 570, 660, 690 :: int] ! 1 + 30 \<le> [540, 570, 660, 690] ! Suc 1"
    by (metis length_Cons list.size(3) Suc_less_eq zero_less_Suc One_nat_def)
  with h1 h2 g m show ?thesis by blast
qed

text \<open>
  C10: for a slot duration among the schema's values 15, 20, 30, 45 and 60 the loop of
  \<open>generateTimeSlots\<close> terminates (the function returns a list), and every run of the
  loop body strictly increases \<^verbatim>\<open>currentTime\<close>, by the slot duration or by the jump to
  \<^verbatim>\<open>breakEnd\<close>.
\<close>

theorem generateTimeSlots_terminates:
  assumes "times_wellformed (availability d)"
    and "slotDuration (availability d) \<in> set slotDuration_enum"
  shows "(\<exists>slots. generateTimeSlots tz d date = Some slots)
       \<and> (\<forall>c slots. \<exists>c'. fst (slot_body (slotDuration (availability d))
                                (hm_minutes (breakStart (availability d)))
                                (hm_minutes (breakEnd (availability d))) (Some c, slots)) = Some c'
                          \<and> c < c')"
proof -
  from assms(2) have pos: "0 < slotDuration (availability d)"
    by (auto simp: slotDuration_enum_def)
  from generateTimeSlots_total [OF assms(1) pos, of tz date]
  have t: "\<exists>slots. generateTimeSlots tz d date = Some slots" by blast
  from assms(1) obtain bs be where
    "hm_minutes (breakStart (availability d)) = Some bs"
    "hm_minutes (breakEnd (availability d)) = Some be"
    unfolding times_wellformed_def by (metis time_string_minutes)
  with pos have "\<forall>c slots. \<exists>c'. fst (slot_body (slotDuration (availability d))
                                (hm_minutes (breakStart (availability d)))
                                (hm_minutes (breakEnd (availability d))) (Some c, slots)) = Some c'
                          \<and> c < c'"
    by (simp add: slot_body_def js_le_def js_lt_def js_add_def)
  with t show ?thesis by blast
qed

theorem generateTimeSlots_terminates_witness:
  "times_wellformed (availability doctor0)
   \<and> slotDuration (availability doctor0) \<in> set slotDuration_enum
   \<and> (\<exists>slots. generateTimeSlots 0 doctor0 (Some 0) = Some slots)
   \<and> (\<exists>c'. fst (slot_body 30 (Some 600) (Some 660) (Some 615, [])) = Some c' \<and> 615 < c')"
proof -
  have h1: "times_wellformed (availability doctor0)" by code_simp
  have h2: "slotDuration (availability doctor0) \<in> set slotDuration_enum" by code_simp
  have p: "hm_minutes (breakStart (availability doctor0)) = Some 600"
          "hm_minutes (breakEnd (availability doctor0)) = Some 660"
          "slotDuration (availability doctor0) = 30"
    by code_simp+
  from generateTimeSlots_terminates [OF h1 h2, of 0 "Some 0"] h1 h2 show ?thesis
    unfolding p by blast
qed

section \<open>Availability of a doctor at a time\<close>

text \<open>
  On a time string \<^verbatim>\<open>H:MM\<close> or \<^verbatim>\<open>HH:MM\<close> that stands for the minutes \<open>t\<close>, and
  availability times of that form, \<open>checkAvailability\<close> answers \<^verbatim>\<open>{ available: true }\<close>
  exactly when the doctor has \<^verbatim>\<open>isAvailable\<close> set and status \<^verbatim>\<open>'active'\<close>, the date's
  weekday is a working day, \<open>workStart \<le> t < workEnd\<close> and not \<open>bs \<le> t < be\<close>; every
  other answer has \<^verbatim>\<open>available: false\<close> and a reason string.
\<close>

lemma checkAvailability_clock_times:
  assumes "clock_minutes time = Some t"
    and "clock_minutes (startTime (availability d)) = Some workStart"
    and "clock_minutes (endTime (availability d)) = Some workEnd"
    and "clock_minutes (breakStart (availability d)) = Some bs"
    and "clock_minutes (breakEnd (availability d)) = Some be"
  shows "(available (checkAvailability tz d date time) \<longleftrightarrow>
            isAvailable d \<and> doctor.status d = ''active''
          \<and> dayName tz date \<in> set (workingDays (availability d))
          \<and> workStart \<le> t \<and> t < workEnd \<and> \<not> (bs \<le> t \<and> t < be))
       \<and> (if available (checkAvailability tz d date time)
           then checkAvailability tz d date time = \<lparr>available = True, reason = None\<rparr>
           else \<exists>r. availability_result.reason (checkAvailability tz d date time) = Some r)"
proof -
  note h = assms [THEN clock_minutes_hm]
  from h show ?thesis
    by (auto simp: checkAvailability_def js_lt_def js_le_def Let_def)
qed

text \<open>
  C4: a time string that does not read as minutes, such as \<^verbatim>\<open>"930"\<close> or \<^verbatim>\<open>"abc"\<close>, gives
  \<^verbatim>\<open>NaN\<close>, which fails neither the test on the working hours nor the test on the break:
  for the available, active doctor \<open>doctor0\<close> on a working day the answer is
  \<^verbatim>\<open>{ available: true }\<close>, although no time within the working hours was asked for. On
  the next day, which is not a working day, and at 10:30 and 13:00 of the working day the
  same doctor is reported unavailable with a reason; at 09:30 available.
\<close>

theorem checkAvailability_unreadable_time:
  "hm_minutes ''930'' = None \<and> clock_minutes ''930'' = None
   \<and> checkAvailability 0 doctor0 (Some 0) ''930'' = \<lparr>available = True, reason = None\<rparr>
   \<and> checkAvailability 0 doctor0 (Some 0) ''abc'' = \<lparr>available = True, reason = None\<rparr>
   \<and> checkAvailability 0 doctor0 (Some 86400000) ''930''
       = \<lparr>available = False, reason = Some ''Doctor does not work on this day''\<rparr>
   \<and> checkAvailability 0 doctor0 (Some 0) ''10:30''
       = \<lparr>available = False, reason = Some ''During break time''\<rparr>
   \<and> checkAvailability 0 doctor0 (Some 0) ''13:00''
       = \<lparr>available = False, reason = Some ''Outside working hours''\<rparr>
   \<and> checkAvailability 0 doctor0 (Some 0) ''09:30'' = \<lparr>available = True, reason = None\<rparr>"
  by code_simp

section \<open>Rating updates\<close>

lemma Math_round_nearest: "x - 1 / 2 < of_int (Math_round x) \<and> of_int (Math_round x) \<le> x + 1 / 2"
  unfolding Math_round_def by linarith

lemma sum_1_5: "(\<Sum>k \<in> {1..5::int}. f k) = f 1 + f 2 + f 3 + f 4 + f 5"
proof -
  have "{1..5::int} = {1, 2, 3, 4, 5}" by auto
  then show ?thesis by (simp add: add.assoc)
qed

lemma totalRatings_sum:
  "foldl (\<lambda>sum count. sum + count) 0 (Object_values b) = (\<Sum>k \<in> {1..5}. count_of b k)"
  by (simp add: sum_1_5 Object_values_def Object_entries_def count_of_def)

lemma totalScore_sum:
  "foldl (\<lambda>sum (rating, count). sum + rating * count) 0 (Object_entries b)
   = (\<Sum>k \<in> {1..5}. k * count_of b k)"
  by (simp add: sum_1_5 Object_entries_def count_of_def)

lemma count_of_increment:
  assumes "1 \<le> r" and "r \<le> 5" and "k \<in> {1..5}"
  shows "count_of (increment b r) k = count_of b k + (if k = r then 1 else 0)"
  using assms by (auto simp: count_of_def increment_def)

lemma updateRating_accepts:
  assumes "1 \<le> r" and "r \<le> 5"
  shows "updateRating r d =
           (None, d\<lparr>rating :=
              \<lparr>average = average_set (js_div (\<Sum>k \<in> {1..5}. k * count_of (increment (breakdown (rating d)) r) k)
                                              (\<Sum>k \<in> {1..5}. count_of (increment (breakdown (rating d)) r) k)),
               totalReviews = (\<Sum>k \<in> {1..5}. count_of (increment (breakdown (rating d)) r) k),
               breakdown = increment (breakdown (rating d)) r\<rparr>\<rparr>)"
  using assms by (simp add: updateRating_def Let_def totalRatings_sum totalScore_sum)

lemma total_positive:
  assumes "1 \<le> r" and "r \<le> 5" and "\<forall>k \<in> {1..5}. 0 \<le> count_of b k"
  shows "0 < (\<Sum>k \<in> {1..5}. count_of (increment b r) k)"
proof -
  have "(\<Sum>k \<in> {1..5}. count_of (increment b r) k)
        = (\<Sum>k \<in> {1..5}. count_of b k + (if k = r then 1 else 0))"
    using assms(1,2) by (intro sum.cong) (simp_all add: count_of_increment)
  also have "\<dots> = (\<Sum>k \<in> {1..5}. count_of b k) + 1"
    using assms(1,2) by (simp add: sum.distrib)
  finally have eq: "(\<Sum>k \<in> {1..5}. count_of (increment b r) k)
                    = (\<Sum>k \<in> {1..5}. count_of b k) + 1" .
  have "0 \<le> (\<Sum>k \<in> {1..5}. count_of b k)"
    using assms(3) by (intro sum_nonneg) simp
  with eq show ?thesis by simp
qed

text \<open>
  C5: a rating below 1 or above 5 makes \<open>updateRating\<close> throw and leaves the document as
  it was. A rating from 1 to 5, on counters that are not negative, adds one to the
  counter of that rating and leaves the other four, sets \<^verbatim>\<open>totalReviews\<close> to the sum of
  the five counters, and sets \<^verbatim>\<open>average\<close> to the weighted sum of the counters divided
  by \<^verbatim>\<open>totalReviews\<close>, rounded to one decimal place: it is \<open>m / 10\<close> for the integer
  \<open>m\<close> nearest to ten times the quotient, a tie going up.
\<close>

theorem updateRating_spec:
  fixes r :: int and d :: doctor
  defines "d' \<equiv> snd (updateRating r d)"
  shows "(r < 1 \<or> 5 < r \<longrightarrow> (\<exists>msg. fst (updateRating r d) = Some msg) \<and> d' = d)
   \<and> (1 \<le> r \<and> r \<le> 5 \<and> (\<forall>k \<in> {1..5}. 0 \<le> count_of (breakdown (rating d)) k) \<longrightarrow>
      fst (updateRating r d) = None
      \<and> (\<forall>k \<in> {1..5}. count_of (breakdown (rating d')) k
             = count_of (breakdown (rating d)) k + (if k = r then 1 else 0))
      \<and> totalReviews (rating d') = (\<Sum>k \<in> {1..5}. count_of (breakdown (rating d')) k)
      \<and> 0 < totalReviews (rating d')
      \<and> (\<exists>m :: int.
            average (rating d') = Some (of_int m / 10)
          \<and> rat_of_int (\<Sum>k \<in> {1..5}. k * count_of (breakdown (rating d')) k)
               / rat_of_int (totalReviews (rating d')) * 10 - 1 / 2 < rat_of_int m
          \<and> rat_of_int m \<le> rat_of_int (\<Sum>k \<in> {1..5}. k * count_of (breakdown (rating d')) k)
               / rat_of_int (totalReviews (rating d')) * 10 + 1 / 2))"
proof (intro conjI impI)
  assume "r < 1 \<or> 5 < r"
  then show "\<exists>msg. fst (updateRating r d) = Some msg"
    by (auto simp: updateRating_def)
next
  assume "r < 1 \<or> 5 < r"
  then show "d' = d"
    by (auto simp: d'_def updateRating_def)
next
  assume a: "1 \<le> r \<and> r \<le> 5 \<and> (\<forall>k \<in> {1..5}. 0 \<le> count_of (breakdown (rating d)) k)"
  let ?b = "increment (breakdown (rating d)) r"
  let ?total = "\<Sum>k \<in> {1..5}. count_of ?b k"
  let ?score = "\<Sum>k \<in> {1..5}. k * count_of ?b k"
  from a have u: "updateRating r d =
      (None, d\<lparr>rating := \<lparr>average = average_set (js_div ?score ?total),
                           totalReviews = ?total, breakdown = ?b\<rparr>\<rparr>)"
    by (simp add: updateRating_accepts)
  from a have pos: "0 < ?total" by (simp add: total_positive)
  from u show "fst (updateRating r d) = None" by simp
  from u have bd: "breakdown (rating d') = ?b" and tr: "totalReviews (rating d') = ?total"
    and av: "average (rating d') = average_set (js_div ?score ?total)"
    by (simp_all add: d'_def)
  from a show "\<forall>k \<in> {1..5}. count_of (breakdown (rating d')) k
             = count_of (breakdown (rating d)) k + (if k = r then 1 else 0)"
    unfolding bd by (intro ballI count_of_increment) simp_all
  show "totalReviews (rating d') = (\<Sum>k \<in> {1..5}. count_of (breakdown (rating d')) k)"
    by (simp add: bd tr)
  from pos show "0 < totalReviews (rating d')" by (simp add: tr)
  let ?x = "(of_int ?score :: rat) / of_int ?total * 10"
  from pos have "average (rating d') = Some (of_int (Math_round ?x) / 10)"
    by (simp add: av average_set_def js_div_def)
  with Math_round_nearest [of ?x]
  show "\<exists>m :: int.
            average (rating d') = Some (of_int m / 10)
          \<and> rat_of_int (\<Sum>k \<in> {1..5}. k * count_of (breakdown (rating d')) k)
               / rat_of_int (totalReviews (rating d')) * 10 - 1 / 2 < rat_of_int m
          \<and> rat_of_int m \<le> rat_of_int (\<Sum>k \<in> {1..5}. k * count_of (breakdown (rating d')) k)
               / rat_of_int (totalReviews (rating d')) * 10 + 1 / 2"
    unfolding bd tr by (intro exI [of _ "Math_round ?x"]) simp
qed

theorem updateRating_spec_witness:
  "(5 < (6::int))
   \<and> (\<exists>msg. fst (updateRating 6 doctor1) = Some msg) \<and> snd (updateRating 6 doctor1) = doctor1
   \<and> (1 \<le> (4::int) \<and> (4::int) \<le> 5)
   \<and> list_all (\<lambda>k. 0 \<le> count_of (breakdown (rating doctor1)) k) [1, 2, 3, 4, 5]
   \<and> fst (updateRating 4 doctor1) = None
   \<and> count_of (breakdown (rating (snd (updateRating 4 doctor1)))) 4 = 2
   \<and> count_of (breakdown (rating (snd (updateRating 4 doctor1)))) 5 = 1
   \<and> totalReviews (rating (snd (updateRating 4 doctor1))) = 3
   \<and> average (rating (snd (updateRating 4 doctor1))) = Some (43 / 10)"
proof -
  have c: "list_all (\<lambda>k. 0 \<le> count_of (breakdown (rating doctor1)) k) [1, 2, 3, 4, 5]"
    by code_simp
  have "{1..5::int} = set [1, 2, 3, 4, 5]" by auto
  with c have h: "\<forall>k \<in> {1..5}. 0 \<le> count_of (breakdown (rating doctor1)) k"
    by (simp only: list_all_iff)
  from updateRating_spec [of 6 doctor1]
  have r: "(\<exists>msg. fst (updateRating 6 doctor1) = Some msg) \<and> snd (updateRating 6 doctor1) = doctor1"
    by simp
  from updateRating_spec [of 4 doctor1] h
  have a: "fst (updateRating 4 doctor1) = None" by simp
  have v: "count_of (breakdown (rating (snd (updateRating 4 doctor1)))) 4 = 2"
          "count_of (breakdown (rating (snd (updateRating 4 doctor1)))) 5 = 1"
          "totalReviews (rating (snd (updateRating 4 doctor1))) = 3"
    by code_simp+
  have w: "average (rating (snd (updateRating 4 doctor1))) = Some (43 / 10)"
    by code_simp
  from c r a v w show ?thesis by simp
qed

section \<open>Conflicting appointments\<close>



section \<open>Double booking\<close>

text \<open>
  The controller \<open>createAppointment\<close>, taken by itself, inserts without looking for
  conflicts: called twice with the same doctor, date and time on an empty collection it
  leaves two scheduled appointments at 09:00. The server does not route to it.
\<close>

lemma createAppointment_runs_no_check:
  "createAppointment 1000 ''admin'' None body0 [] = (201, [hd store2])
   \<and> createAppointment 2000 ''admin'' None body0 [hd store2] = (201, store2)
   \<and> \<not> no_double_booking store2"
  by code_simp











section \<open>The age of a patient\<close>

text \<open>
  C8: without a \<^verbatim>\<open>dateOfBirth\<close> the virtual \<^verbatim>\<open>age\<close> is \<^verbatim>\<open>null\<close>. With one it is the
  difference of the calendar years of today and of the birth date, less one when the
  birth month and day have not yet occurred this year; that number \<open>n\<close> is the number of
  birthdays passed: the \<open>n\<close>-th anniversary is on or before today and the next one is
  not.
\<close>

theorem age_completed_years:
  "age today (this\<lparr>dateOfBirth := None\<rparr>) = None
   \<and> (\<exists>n. age today (this\<lparr>dateOfBirth := Some b\<rparr>) = Some n
          \<and> n = getFullYear today - getFullYear b - (if birthday_not_yet today b then 1 else 0)
          \<and> on_or_before (b\<lparr>getFullYear := getFullYear b + n\<rparr>) today
          \<and> \<not> on_or_before (b\<lparr>getFullYear := getFullYear b + n + 1\<rparr>) today)"
proof (cases "birthday_not_yet today b")
  case True
  then show ?thesis
    by (auto simp: age_def birthday_not_yet_def on_or_before_def Let_def)
next
  case False
  then show ?thesis
    by (auto simp: age_def birthday_not_yet_def on_or_before_def Let_def)
qed

section \<open>Creating patients\<close>

text \<open>
  C7, as stated, fails on \<^verbatim>\<open>POST /api/patients/register\<close>: the route looks up the
  trimmed id number. \<^verbatim>\<open>POST /api/patients\<close> stores the id number \<^verbatim>\<open>" 123 "\<close> as sent; a
  registration carrying the same string then looks for \<^verbatim>\<open>"123"\<close>, finds nothing, is
  answered 201, and a second patient is stored.
\<close>

theorem register_untrimmed_idNumber_counterexample:
  "post_patients parseDate0 1 ''PAT000001'' True body_ann [] = (201, [patient0])
   \<and> req_idNumber body1 = Some (idNumber patient0)
   \<and> fst (post_register parseDate0 2 ''PAT000002'' True body1 [patient0]) = 201
   \<and> map idNumber (snd (post_register parseDate0 2 ''PAT000002'' True body1 [patient0]))
       = ['' 123 '', ''123'']"
  by code_simp

lemma existingPatient_iff:
  "existingPatient e i store \<longleftrightarrow>
     (\<exists>p \<in> set store. Some (email p) = map_option cast_email e \<or> Some (idNumber p) = i)"
  by (simp add: existingPatient_def list_ex_iff)

lemma lower_keeps_space:
  "is_space (if 65 \<le> (of_char c :: nat) \<and> (of_char c :: nat) \<le> 90
             then char_of (of_char c + 32 :: nat) else c) = is_space c"
  by (auto simp: is_space_def)

lemma toLowerCase_trim: "toLowerCase (trim s) = trim (toLowerCase s)"
proof -
  let ?f = "\<lambda>c. if 65 \<le> (of_char c :: nat) \<and> (of_char c :: nat) \<le> 90
                 then char_of (of_char c + 32 :: nat) else c"
  have c: "is_space \<circ> ?f = is_space" by (rule ext) (simp only: o_apply lower_keeps_space)
  have d: "dropWhile is_space (map ?f xs) = map ?f (dropWhile is_space xs)" for xs
    by (simp only: dropWhile_map c)
  show ?thesis
    unfolding toLowerCase_def trim_def by (simp only: d rev_map)
qed

lemma toLowerCase_idem: "toLowerCase (toLowerCase s) = toLowerCase s"
  by (induction s) (auto simp: toLowerCase_def)

lemma rev_dropWhile_rev_take: "\<exists>n. rev (dropWhile P (rev t)) = take n t"
proof -
  have "rev (dropWhile P (rev t)) = rev (drop (length (takeWhile P (rev t))) (rev t))"
    by (simp only: dropWhile_eq_drop)
  also have "\<dots> = take (length (rev t) - length (takeWhile P (rev t))) (rev (rev t))"
    by (simp only: rev_drop)
  finally show ?thesis by (simp only: rev_rev_ident) (rule exI, rule refl)
qed

lemma dropWhile_trimmed:
  assumes "u = rev (dropWhile is_space (rev t))" and "t = dropWhile is_space s"
  shows "dropWhile is_space u = u"
proof (cases "u = []")
  case True
  then show ?thesis by simp
next
  case False
  obtain n where n: "u = take n t" using assms(1) rev_dropWhile_rev_take by metis
  with False have t: "t \<noteq> []" and k: "0 < n" by auto
  from t assms(2) have "\<not> is_space (hd t)" by (simp add: hd_dropWhile)
  moreover from n k have "hd u = hd t" by (simp add: hd_take)
  ultimately have "\<not> is_space (hd u)" by simp
  with False show ?thesis by (cases u) simp_all
qed

lemma trim_idem: "trim (trim s) = trim s"
proof -
  define t where "t = dropWhile is_space s"
  define u where "u = rev (dropWhile is_space (rev t))"
  have tu: "trim s = u" by (simp only: trim_def u_def t_def)
  have "dropWhile is_space u = u" using u_def t_def by (rule dropWhile_trimmed)
  then have "trim u = rev (dropWhile is_space (rev u))" by (simp only: trim_def)
  also have "\<dots> = u" by (simp only: u_def rev_rev_ident dropWhile_idem)
  finally show ?thesis by (simp only: tu)
qed

lemma cast_email_idem: "cast_email (cast_email e) = cast_email e"
  by (simp add: cast_email_def toLowerCase_trim trim_idem toLowerCase_idem)

lemma Patient_save_Saved:
  assumes "Patient_save v doc store = Saved store'"
  shows "store' = store @ [doc]" and "\<not> unique_index_conflict doc store"
proof -
  from assms have "\<not> (\<not> validate_patient v doc)" and u: "\<not> unique_index_conflict doc store"
    unfolding Patient_save_def by (simp_all split: if_splits)
  with assms show "store' = store @ [doc]"
    unfolding Patient_save_def by simp
  from u show "\<not> unique_index_conflict doc store" .
qed

lemma Patient_save_distinct:
  assumes "Patient_save v doc store = Saved store'"
    and "distinct (map email store)" and "distinct (map idNumber store)"
  shows "distinct (map email store') \<and> distinct (map idNumber store')"
proof -
  note s = Patient_save_Saved [OF assms(1)]
  from s(2) have u: "\<forall>p \<in> set store. email p \<noteq> email doc \<and> idNumber p \<noteq> idNumber doc"
    by (simp add: unique_index_conflict_def list_ex_iff)
  have "email doc \<notin> set (map email store)"
  proof
    assume "email doc \<in> set (map email store)"
    then obtain p where "p \<in> set store" and "email p = email doc" by (auto simp: image_iff)
    with u show False by simp
  qed
  moreover have "idNumber doc \<notin> set (map idNumber store)"
  proof
    assume "idNumber doc \<in> set (map idNumber store)"
    then obtain p where "p \<in> set store" and "idNumber p = idNumber doc" by (auto simp: image_iff)
    with u show False by simp
  qed
  ultimately show ?thesis using assms(2,3) by (simp add: s(1))
qed

lemma post_patients_distinct:
  assumes "distinct (map email store)" and "distinct (map idNumber store)"
  shows "distinct (map email (snd (post_patients pd newOid pid v b store)))
       \<and> distinct (map idNumber (snd (post_patients pd newOid pid v b store)))"
proof (cases "Patient_save v (new_Patient pd newOid pid b) store")
  case (Saved store')
  from Patient_save_distinct [OF Saved assms] assms Saved show ?thesis
    unfolding post_patients_def by simp
next
  case ValidationError
  with assms show ?thesis unfolding post_patients_def by simp
next
  case DuplicateKey
  with assms show ?thesis unfolding post_patients_def by simp
qed

lemma post_register_distinct:
  assumes "distinct (map email store)" and "distinct (map idNumber store)"
  shows "distinct (map email (snd (post_register pd newOid pid v b store)))
       \<and> distinct (map idNumber (snd (post_register pd newOid pid v b store)))"
proof (cases "Patient_save v (newPatient pd newOid pid b) store")
  case (Saved store')
  from Patient_save_distinct [OF Saved assms] assms Saved show ?thesis
    unfolding post_register_def by simp
next
  case ValidationError
  with assms show ?thesis unfolding post_register_def by simp
next
  case DuplicateKey
  with assms show ?thesis unfolding post_register_def by simp
qed

text \<open>
  C7, amended: \<^verbatim>\<open>POST /api/patients\<close> answers 400 and stores nothing when the body's
  email, lower-cased and trimmed as the lookup casts it, or its id number equals a stored
  patient's; so it does when the email itself equals a stored one that is lower-case and
  trimmed. \<^verbatim>\<open>POST /api/patients/register\<close> answers
  400 and stores nothing when the body's email, lower-cased and trimmed, or its id
  number, trimmed, equals a stored patient's; so it does when the email equals a stored
  one that is lower-case and trimmed, or the id number equals a stored one without
  surrounding white space. Both routes keep the stored emails and the stored id numbers
  pairwise different.
\<close>

theorem create_patient_rejects_duplicates:
  "((\<exists>p \<in> set store. (\<exists>e. req_email b = Some e \<and> email p = trim (toLowerCase e))
                       \<or> req_idNumber b = Some (idNumber p))
      \<longrightarrow> post_patients pd newOid pid v b store = (400, store))
   \<and> ((\<exists>p \<in> set store. (req_email b = Some (email p) \<and> trim (toLowerCase (email p)) = email p)
                       \<or> req_idNumber b = Some (idNumber p))
      \<longrightarrow> post_patients pd newOid pid v b store = (400, store))
   \<and> ((\<exists>p \<in> set store. email p = trim (toLowerCase (or_empty (req_email b)))
                       \<or> idNumber p = trim (or_empty (req_idNumber b)))
      \<longrightarrow> post_register pd newOid pid v b store = (400, store))
   \<and> ((\<exists>p \<in> set store. (req_email b = Some (email p) \<and> trim (toLowerCase (email p)) = email p)
                       \<or> (req_idNumber b = Some (idNumber p) \<and> trim (idNumber p) = idNumber p))
      \<longrightarrow> post_register pd newOid pid v b store = (400, store))
   \<and> (distinct (map email store) \<and> distinct (map idNumber store)
      \<longrightarrow> distinct (map email (snd (post_patients pd newOid pid v b store)))
        \<and> distinct (map idNumber (snd (post_patients pd newOid pid v b store)))
        \<and> distinct (map email (snd (post_register pd newOid pid v b store)))
        \<and> distinct (map idNumber (snd (post_register pd newOid pid v b store))))"
proof (intro conjI impI)
  assume "\<exists>p \<in> set store. (\<exists>e. req_email b = Some e \<and> email p = trim (toLowerCase e))
                       \<or> req_idNumber b = Some (idNumber p)"
  then have "existingPatient (req_email b) (req_idNumber b) store"
    by (auto simp: existingPatient_iff cast_email_def)
  then show "post_patients pd newOid pid v b store = (400, store)"
    unfolding post_patients_def by simp
next
  assume "\<exists>p \<in> set store. (req_email b = Some (email p) \<and> trim (toLowerCase (email p)) = email p)
                       \<or> req_idNumber b = Some (idNumber p)"
  then have "existingPatient (req_email b) (req_idNumber b) store"
    by (auto simp: existingPatient_iff cast_email_def)
  then show "post_patients pd newOid pid v b store = (400, store)"
    unfolding post_patients_def by simp
next
  assume "\<exists>p \<in> set store. email p = trim (toLowerCase (or_empty (req_email b)))
                       \<or> idNumber p = trim (or_empty (req_idNumber b))"
  then have "\<exists>p \<in> set store. email p = cast_email (cast_email (or_empty (req_email b)))
                       \<or> idNumber p = trim (or_empty (req_idNumber b))"
    by (simp only: cast_email_idem) (simp only: cast_email_def)
  then have "existingPatient (Some (trim (toLowerCase (or_empty (req_email b)))))
               (Some (trim (or_empty (req_idNumber b)))) store"
    by (auto simp: existingPatient_iff cast_email_def)
  then show "post_register pd newOid pid v b store = (400, store)"
    unfolding post_register_def by simp
next
  assume "\<exists>p \<in> set store. (req_email b = Some (email p) \<and> trim (toLowerCase (email p)) = email p)
                       \<or> (req_idNumber b = Some (idNumber p) \<and> trim (idNumber p) = idNumber p)"
  then have "\<exists>p \<in> set store. email p = trim (toLowerCase (or_empty (req_email b)))
                       \<or> idNumber p = trim (or_empty (req_idNumber b))"
    by (auto simp: or_empty_def)
  then have "\<exists>p \<in> set store. email p = cast_email (cast_email (or_empty (req_email b)))
                       \<or> idNumber p = trim (or_empty (req_idNumber b))"
    by (simp only: cast_email_idem) (simp only: cast_email_def)
  then have "existingPatient (Some (trim (toLowerCase (or_empty (req_email b)))))
               (Some (trim (or_empty (req_idNumber b)))) store"
    by (auto simp: existingPatient_iff cast_email_def)
  then show "post_register pd newOid pid v b store = (400, store)"
    unfolding post_register_def by simp
qed (simp_all add: post_patients_distinct post_register_distinct)

theorem create_patient_rejects_duplicates_witness:
  "list_ex (\<lambda>p. (\<exists>e. req_email body2 = Some e \<and> email p = trim (toLowerCase e))
                  \<or> req_idNumber body2 = Some (idNumber p)) [patient0]
   \<and> post_patients parseDate0 2 ''PAT000002'' True body2 [patient0] = (400, [patient0])
   \<and> list_ex (\<lambda>p. (req_email body3 = Some (email p) \<and> trim (toLowerCase (email p)) = email p)
                  \<or> req_idNumber body3 = Some (idNumber p)) [patient0]
   \<and> post_patients parseDate0 2 ''PAT000002'' True body3 [patient0] = (400, [patient0])
   \<and> list_ex (\<lambda>p. email p = trim (toLowerCase (or_empty (req_email body2)))
                  \<or> idNumber p = trim (or_empty (req_idNumber body2))) [patient0]
   \<and> post_register parseDate0 2 ''PAT000002'' True body2 [patient0] = (400, [patient0])
   \<and> list_ex (\<lambda>p. (req_email body3 = Some (email p) \<and> trim (toLowerCase (email p)) = email p)
                  \<or> (req_idNumber body3 = Some (idNumber p) \<and> trim (idNumber p) = idNumber p))
        [patient0]
   \<and> post_register parseDate0 2 ''PAT000002'' True body3 [patient0] = (400, [patient0])
   \<and> distinct (map email [patient0]) \<and> distinct (map idNumber [patient0])
   \<and> distinct (map idNumber (snd (post_register parseDate0 2 ''PAT000002'' True body1 [patient0])))"
proof -
  have e2: "req_email body2 = Some ''Ann@Example.com ''" by (simp add: body2_def)
  have p0: "email patient0 = trim (toLowerCase ''Ann@Example.com '')" by code_simp
  have h0: "list_ex (\<lambda>p. (\<exists>e. req_email body2 = Some e \<and> email p = trim (toLowerCase e))
                  \<or> req_idNumber body2 = Some (idNumber p)) [patient0]"
    using e2 p0 by simp
  have h1: "list_ex (\<lambda>p. (req_email body3 = Some (email p) \<and> trim (toLowerCase (email p)) = email p)
                  \<or> req_idNumber body3 = Some (idNumber p)) [patient0]"
    by code_simp
  have h2: "list_ex (\<lambda>p. email p = trim (toLowerCase (or_empty (req_email body2)))
                  \<or> idNumber p = trim (or_empty (req_idNumber body2))) [patient0]"
    by code_simp
  have h3: "list_ex (\<lambda>p. (req_email body3 = Some (email p) \<and> trim (toLowerCase (email p)) = email p)
                  \<or> (req_idNumber body3 = Some (idNumber p) \<and> trim (idNumber p) = idNumber p))
        [patient0]"
    by code_simp
  have h4: "distinct (map email [patient0])" "distinct (map idNumber [patient0])" by simp_all
  note t3 = create_patient_rejects_duplicates [of "[patient0]" body3 parseDate0 2 "''PAT000002''" True]
  note t2 = create_patient_rejects_duplicates [of "[patient0]" body2 parseDate0 2 "''PAT000002''" True]
  note t1 = create_patient_rejects_duplicates [of "[patient0]" body1 parseDate0 2 "''PAT000002''" True]
  have z: "post_patients parseDate0 2 ''PAT000002'' True body2 [patient0] = (400, [patient0])"
    by (rule t2 [THEN conjunct1, THEN mp]) (use h0 in \<open>simp only: list_ex_iff\<close>)
  have a: "post_patients parseDate0 2 ''PAT000002'' True body3 [patient0] = (400, [patient0])"
    by (rule t3 [THEN conjunct2, THEN conjunct1, THEN mp]) (use h1 in \<open>simp only: list_ex_iff\<close>)
  have b: "post_register parseDate0 2 ''PAT000002'' True body2 [patient0] = (400, [patient0])"
    by (rule t2 [THEN conjunct2, THEN conjunct2, THEN conjunct1, THEN mp])
       (use h2 in \<open>simp only: list_ex_iff\<close>)
  have c: "post_register parseDate0 2 ''PAT000002'' True body3 [patient0] = (400, [patient0])"
    by (rule t3 [THEN conjunct2, THEN conjunct2, THEN conjunct2, THEN conjunct1, THEN mp])
       (use h3 in \<open>simp only: list_ex_iff\<close>)
  have d: "distinct (map idNumber (snd (post_register parseDate0 2 ''PAT000002'' True body1 [patient0])))"
    by (rule t1 [THEN conjunct2, THEN conjunct2, THEN conjunct2, THEN conjunct2, THEN mp,
                 THEN conjunct2, THEN conjunct2, THEN conjunct2])
       (use h4 in \<open>simp only: simp_thms\<close>)
  from h0 z h1 a h2 b h3 c h4 d show ?thesis by (intro conjI)
qed

section \<open>Access to protected routes\<close>

lemma authenticateToken_statuses:
  "authenticateToken verify authHeader =
     (case bearer_token authHeader of
        None \<Rightarrow> Responded 401
      | Some t \<Rightarrow> if t = [] then Responded 401
                  else (case verify t of None \<Rightarrow> Responded 403 | Some payload \<Rightarrow> Next payload))"
  by (simp add: authenticateToken_def falsy_def or_empty_def split: option.splits)

text \<open>
  C6: the middleware of the doctor routes lets a request through whatever its
  \<^verbatim>\<open>Authorization\<close> header is, as a user whose role the code fixes: \<^verbatim>\<open>adminAuth\<close> makes a
  request without a token an admin. \<open>authenticateToken\<close> of the patient routes answers
  the same requests with 401 and 403.
\<close>

theorem doctor_routes_skip_token_check:
  "adminAuth None = Next \<lparr>user_id = ''temp-admin-id'', user_role = ''admin'', user_doctorId = None\<rparr>
   \<and> adminAuth (Some ''Bearer not-a-token'')
       = Next \<lparr>user_id = ''temp-admin-id'', user_role = ''admin'', user_doctorId = None\<rparr>
   \<and> auth None = Next \<lparr>user_id = ''temp-user-id'', user_role = ''user'',
                         user_doctorId = Some ''temp-doctor-id''\<rparr>
   \<and> authenticateToken (\<lambda>t. None :: unit option) None = Responded 401
   \<and> authenticateToken (\<lambda>t. None :: unit option) (Some ''Bearer not-a-token'') = Responded 403"
  by code_simp

end
